theory Spec2Isabelle
  imports Main
begin

section \<open>Python values and strings\<close>

text \<open>
  A Python \<open>str\<close> is a sequence of Unicode code points, so it is modelled as a list of
  natural numbers (one per code point), not as a list of bytes. \<open>lit\<close> turns an ASCII
  literal of the source into that representation.
\<close>

type_synonym str = "nat list"

definition lit :: "string \<Rightarrow> str" where
  "lit s = map of_char s"

text \<open>
  The fields of an \<open>Entry\<close> are whatever \<open>json.load\<close> put into the input mapping. The
  model covers strings, integers, booleans and \<open>null\<close>; JSON numbers with a fraction,
  arrays and objects are outside the model.
\<close>

datatype pyval = PStr str | PInt int | PBool bool | PNone

datatype pyerr = TypeError | ValueError | KeyError

section \<open>Character classes of the \<open>re\<close> module and of \<open>int\<close>\<close>

text \<open>
  For a \<open>str\<close> pattern without flags, \<open>\s\<close>, \<open>\d\<close> and \<open>\w\<close> are the Unicode classes
  \<open>str.isspace\<close>, \<open>str.isdecimal\<close> and \<open>str.isalnum\<close> plus the underscore. The tables
  below are those of Unicode 14.0.0 (CPython 3.11), as closed intervals of code points.
\<close>

definition in_ranges :: "nat \<Rightarrow> (nat \<times> nat) list \<Rightarrow> bool" where
  "in_ranges c rs = list_ex (\<lambda>(lo, hi). lo \<le> c \<and> c \<le> hi) rs"

definition space_ranges :: "(nat \<times> nat) list" where
  "space_ranges =
    [(9, 13), (28, 32), (133, 133), (160, 160), (5760, 5760), (8192, 8202),
     (8232, 8233), (8239, 8239), (8287, 8287), (12288, 12288)]"
definition decimal_ranges :: "(nat \<times> nat) list" where
  "decimal_ranges =
    [(48, 57), (1632, 1641), (1776, 1785), (1984, 1993), (2406, 2415), (2534, 2543),
     (2662, 2671), (2790, 2799), (2918, 2927), (3046, 3055), (3174, 3183), (3302, 3311),
     (3430, 3439), (3558, 3567), (3664, 3673), (3792, 3801), (3872, 3881), (4160, 4169),
     (4240, 4249), (6112, 6121), (6160, 6169), (6470, 6479), (6608, 6617), (6784, 6793),
     (6800, 6809), (6992, 7001), (7088, 7097), (7232, 7241), (7248, 7257), (42528, 42537),
     (43216, 43225), (43264, 43273), (43472, 43481), (43504, 43513), (43600, 43609), (44016, 44025),
     (65296, 65305), (66720, 66729), (68912, 68921), (69734, 69743), (69872, 69881), (69942, 69951),
     (70096, 70105), (70384, 70393), (70736, 70745), (70864, 70873), (71248, 71257), (71360, 71369),
     (71472, 71481), (71904, 71913), (72016, 72025), (72784, 72793), (73040, 73049), (73120, 73129),
     (92768, 92777), (92864, 92873), (93008, 93017), (120782, 120831), (123200, 123209), (123632, 123641),
     (125264, 125273), (130032, 130041)]"
definition alnum_ranges :: "(nat \<times> nat) list" where
  "alnum_ranges =
    [(48, 57), (65, 90), (97, 122), (170, 170), (178, 179), (181, 181), (185, 186),
     (188, 190), (192, 214), (216, 246), (248, 705), (710, 721), (736, 740), (748, 748),
     (750, 750), (880, 884), (886, 887), (890, 893), (895, 895), (902, 902), (904, 906),
     (908, 908), (910, 929), (931, 1013), (1015, 1153), (1162, 1327), (1329, 1366), (1369, 1369),
     (1376, 1416), (1488, 1514), (1519, 1522), (1568, 1610), (1632, 1641), (1646, 1647), (1649, 1747),
     (1749, 1749), (1765, 1766), (1774, 1788), (1791, 1791), (1808, 1808), (1810, 1839), (1869, 1957),
     (1969, 1969), (1984, 2026), (2036, 2037), (2042, 2042), (2048, 2069), (2074, 2074), (2084, 2084),
     (2088, 2088), (2112, 2136), (2144, 2154), (2160, 2183), (2185, 2190), (2208, 2249), (2308, 2361),
     (2365, 2365), (2384, 2384), (2392, 2401), (2406, 2415), (2417, 2432), (2437, 2444), (2447, 2448),
     (2451, 2472), (2474, 2480), (2482, 2482), (2486, 2489), (2493, 2493), (2510, 2510), (2524, 2525),
     (2527, 2529), (2534, 2545), (2548, 2553), (2556, 2556), (2565, 2570), (2575, 2576), (2579, 2600),
     (2602, 2608), (2610, 2611), (2613, 2614), (2616, 2617), (2649, 2652), (2654, 2654), (2662, 2671),
     (2674, 2676), (2693, 2701), (2703, 2705), (2707, 2728), (2730, 2736), (2738, 2739), (2741, 2745),
     (2749, 2749), (2768, 2768), (2784, 2785), (2790, 2799), (2809, 2809), (2821, 2828), (2831, 2832),
     (2835, 2856), (2858, 2864), (2866, 2867), (2869, 2873), (2877, 2877), (2908, 2909), (2911, 2913),
     (2918, 2927), (2929, 2935), (2947, 2947), (2949, 2954), (2958, 2960), (2962, 2965), (2969, 2970),
     (2972, 2972), (2974, 2975), (2979, 2980), (2984, 2986), (2990, 3001), (3024, 3024), (3046, 3058),
     (3077, 3084), (3086, 3088), (3090, 3112), (3114, 3129), (3133, 3133), (3160, 3162), (3165, 3165),
     (3168, 3169), (3174, 3183), (3192, 3198), (3200, 3200), (3205, 3212), (3214, 3216), (3218, 3240),
     (3242, 3251), (3253, 3257), (3261, 3261), (3293, 3294), (3296, 3297), (3302, 3311), (3313, 3314),
     (3332, 3340), (3342, 3344), (3346, 3386), (3389, 3389), (3406, 3406), (3412, 3414), (3416, 3425),
     (3430, 3448), (3450, 3455), (3461, 3478), (3482, 3505), (3507, 3515), (3517, 3517), (3520, 3526),
     (3558, 3567), (3585, 3632), (3634, 3635), (3648, 3654), (3664, 3673), (3713, 3714), (3716, 3716),
     (3718, 3722), (3724, 3747), (3749, 3749), (3751, 3760), (3762, 3763), (3773, 3773), (3776, 3780),
     (3782, 3782), (3792, 3801), (3804, 3807), (3840, 3840), (3872, 3891), (3904, 3911), (3913, 3948),
     (3976, 3980), (4096, 4138), (4159, 4169), (4176, 4181), (4186, 4189), (4193, 4193), (4197, 4198),
     (4206, 4208), (4213, 4225), (4238, 4238), (4240, 4249), (4256, 4293), (4295, 4295), (4301, 4301),
     (4304, 4346), (4348, 4680), (4682, 4685), (4688, 4694), (4696, 4696), (4698, 4701), (4704, 4744),
     (4746, 4749), (4752, 4784), (4786, 4789), (4792, 4798), (4800, 4800), (4802, 4805), (4808, 4822),
     (4824, 4880), (4882, 4885), (4888, 4954), (4969, 4988), (4992, 5007), (5024, 5109), (5112, 5117),
     (5121, 5740), (5743, 5759), (5761, 5786), (5792, 5866), (5870, 5880), (5888, 5905), (5919, 5937),
     (5952, 5969), (5984, 5996), (5998, 6000), (6016, 6067), (6103, 6103), (6108, 6108), (6112, 6121),
     (6128, 6137), (6160, 6169), (6176, 6264), (6272, 6276), (6279, 6312), (6314, 6314), (6320, 6389),
     (6400, 6430), (6470, 6509), (6512, 6516), (6528, 6571), (6576, 6601), (6608, 6618), (6656, 6678),
     (6688, 6740), (6784, 6793), (6800, 6809), (6823, 6823), (6917, 6963), (6981, 6988), (6992, 7001),
     (7043, 7072), (7086, 7141), (7168, 7203), (7232, 7241), (7245, 7293), (7296, 7304), (7312, 7354),
     (7357, 7359), (7401, 7404), (7406, 7411), (7413, 7414), (7418, 7418), (7424, 7615), (7680, 7957),
     (7960, 7965), (7968, 8005), (8008, 8013), (8016, 8023), (8025, 8025), (8027, 8027), (8029, 8029),
     (8031, 8061), (8064, 8116), (8118, 8124), (8126, 8126), (8130, 8132), (8134, 8140), (8144, 8147),
     (8150, 8155), (8160, 8172), (8178, 8180), (8182, 8188), (8304, 8305), (8308, 8313), (8319, 8329),
     (8336, 8348), (8450, 8450), (8455, 8455), (8458, 8467), (8469, 8469), (8473, 8477), (8484, 8484),
     (8486, 8486), (8488, 8488), (8490, 8493), (8495, 8505), (8508, 8511), (8517, 8521), (8526, 8526),
     (8528, 8585), (9312, 9371), (9450, 9471), (10102, 10131), (11264, 11492), (11499, 11502), (11506, 11507),
     (11517, 11517), (11520, 11557), (11559, 11559), (11565, 11565), (11568, 11623), (11631, 11631), (11648, 11670),
     (11680, 11686), (11688, 11694), (11696, 11702), (11704, 11710), (11712, 11718), (11720, 11726), (11728, 11734),
     (11736, 11742), (11823, 11823), (12293, 12295), (12321, 12329), (12337, 12341), (12344, 12348), (12353, 12438),
     (12445, 12447), (12449, 12538), (12540, 12543), (12549, 12591), (12593, 12686), (12690, 12693), (12704, 12735),
     (12784, 12799), (12832, 12841), (12872, 12879), (12881, 12895), (12928, 12937), (12977, 12991), (13312, 19903),
     (19968, 42124), (42192, 42237), (42240, 42508), (42512, 42539), (42560, 42606), (42623, 42653), (42656, 42735),
     (42775, 42783), (42786, 42888), (42891, 42954), (42960, 42961), (42963, 42963), (42965, 42969), (42994, 43009),
     (43011, 43013), (43015, 43018), (43020, 43042), (43056, 43061), (43072, 43123), (43138, 43187), (43216, 43225),
     (43250, 43255), (43259, 43259), (43261, 43262), (43264, 43301), (43312, 43334), (43360, 43388), (43396, 43442),
     (43471, 43481), (43488, 43492), (43494, 43518), (43520, 43560), (43584, 43586), (43588, 43595), (43600, 43609),
     (43616, 43638), (43642, 43642), (43646, 43695), (43697, 43697), (43701, 43702), (43705, 43709), (43712, 43712),
     (43714, 43714), (43739, 43741), (43744, 43754), (43762, 43764), (43777, 43782), (43785, 43790), (43793, 43798),
     (43808, 43814), (43816, 43822), (43824, 43866), (43868, 43881), (43888, 44002), (44016, 44025), (44032, 55203),
     (55216, 55238), (55243, 55291), (63744, 64109), (64112, 64217), (64256, 64262), (64275, 64279), (64285, 64285),
     (64287, 64296), (64298, 64310), (64312, 64316), (64318, 64318), (64320, 64321), (64323, 64324), (64326, 64433),
     (64467, 64829), (64848, 64911), (64914, 64967), (65008, 65019), (65136, 65140), (65142, 65276), (65296, 65305),
     (65313, 65338), (65345, 65370), (65382, 65470), (65474, 65479), (65482, 65487), (65490, 65495), (65498, 65500),
     (65536, 65547), (65549, 65574), (65576, 65594), (65596, 65597), (65599, 65613), (65616, 65629), (65664, 65786),
     (65799, 65843), (65856, 65912), (65930, 65931), (66176, 66204), (66208, 66256), (66273, 66299), (66304, 66339),
     (66349, 66378), (66384, 66421), (66432, 66461), (66464, 66499), (66504, 66511), (66513, 66517), (66560, 66717),
     (66720, 66729), (66736, 66771), (66776, 66811), (66816, 66855), (66864, 66915), (66928, 66938), (66940, 66954),
     (66956, 66962), (66964, 66965), (66967, 66977), (66979, 66993), (66995, 67001), (67003, 67004), (67072, 67382),
     (67392, 67413), (67424, 67431), (67456, 67461), (67463, 67504), (67506, 67514), (67584, 67589), (67592, 67592),
     (67594, 67637), (67639, 67640), (67644, 67644), (67647, 67669), (67672, 67702), (67705, 67742), (67751, 67759),
     (67808, 67826), (67828, 67829), (67835, 67867), (67872, 67897), (67968, 68023), (68028, 68047), (68050, 68096),
     (68112, 68115), (68117, 68119), (68121, 68149), (68160, 68168), (68192, 68222), (68224, 68255), (68288, 68295),
     (68297, 68324), (68331, 68335), (68352, 68405), (68416, 68437), (68440, 68466), (68472, 68497), (68521, 68527),
     (68608, 68680), (68736, 68786), (68800, 68850), (68858, 68899), (68912, 68921), (69216, 69246), (69248, 69289),
     (69296, 69297), (69376, 69415), (69424, 69445), (69457, 69460), (69488, 69505), (69552, 69579), (69600, 69622),
     (69635, 69687), (69714, 69743), (69745, 69746), (69749, 69749), (69763, 69807), (69840, 69864), (69872, 69881),
     (69891, 69926), (69942, 69951), (69956, 69956), (69959, 69959), (69968, 70002), (70006, 70006), (70019, 70066),
     (70081, 70084), (70096, 70106), (70108, 70108), (70113, 70132), (70144, 70161), (70163, 70187), (70272, 70278),
     (70280, 70280), (70282, 70285), (70287, 70301), (70303, 70312), (70320, 70366), (70384, 70393), (70405, 70412),
     (70415, 70416), (70419, 70440), (70442, 70448), (70450, 70451), (70453, 70457), (70461, 70461), (70480, 70480),
     (70493, 70497), (70656, 70708), (70727, 70730), (70736, 70745), (70751, 70753), (70784, 70831), (70852, 70853),
     (70855, 70855), (70864, 70873), (71040, 71086), (71128, 71131), (71168, 71215), (71236, 71236), (71248, 71257),
     (71296, 71338), (71352, 71352), (71360, 71369), (71424, 71450), (71472, 71483), (71488, 71494), (71680, 71723),
     (71840, 71922), (71935, 71942), (71945, 71945), (71948, 71955), (71957, 71958), (71960, 71983), (71999, 71999),
     (72001, 72001), (72016, 72025), (72096, 72103), (72106, 72144), (72161, 72161), (72163, 72163), (72192, 72192),
     (72203, 72242), (72250, 72250), (72272, 72272), (72284, 72329), (72349, 72349), (72368, 72440), (72704, 72712),
     (72714, 72750), (72768, 72768), (72784, 72812), (72818, 72847), (72960, 72966), (72968, 72969), (72971, 73008),
     (73030, 73030), (73040, 73049), (73056, 73061), (73063, 73064), (73066, 73097), (73112, 73112), (73120, 73129),
     (73440, 73458), (73648, 73648), (73664, 73684), (73728, 74649), (74752, 74862), (74880, 75075), (77712, 77808),
     (77824, 78894), (82944, 83526), (92160, 92728), (92736, 92766), (92768, 92777), (92784, 92862), (92864, 92873),
     (92880, 92909), (92928, 92975), (92992, 92995), (93008, 93017), (93019, 93025), (93027, 93047), (93053, 93071),
     (93760, 93846), (93952, 94026), (94032, 94032), (94099, 94111), (94176, 94177), (94179, 94179), (94208, 100343),
     (100352, 101589), (101632, 101640), (110576, 110579), (110581, 110587), (110589, 110590), (110592, 110882), (110928, 110930),
     (110948, 110951), (110960, 111355), (113664, 113770), (113776, 113788), (113792, 113800), (113808, 113817), (119520, 119539),
     (119648, 119672), (119808, 119892), (119894, 119964), (119966, 119967), (119970, 119970), (119973, 119974), (119977, 119980),
     (119982, 119993), (119995, 119995), (119997, 120003), (120005, 120069), (120071, 120074), (120077, 120084), (120086, 120092),
     (120094, 120121), (120123, 120126), (120128, 120132), (120134, 120134), (120138, 120144), (120146, 120485), (120488, 120512),
     (120514, 120538), (120540, 120570), (120572, 120596), (120598, 120628), (120630, 120654), (120656, 120686), (120688, 120712),
     (120714, 120744), (120746, 120770), (120772, 120779), (120782, 120831), (122624, 122654), (123136, 123180), (123191, 123197),
     (123200, 123209), (123214, 123214), (123536, 123565), (123584, 123627), (123632, 123641), (124896, 124902), (124904, 124907),
     (124909, 124910), (124912, 124926), (124928, 125124), (125127, 125135), (125184, 125251), (125259, 125259), (125264, 125273),
     (126065, 126123), (126125, 126127), (126129, 126132), (126209, 126253), (126255, 126269), (126464, 126467), (126469, 126495),
     (126497, 126498), (126500, 126500), (126503, 126503), (126505, 126514), (126516, 126519), (126521, 126521), (126523, 126523),
     (126530, 126530), (126535, 126535), (126537, 126537), (126539, 126539), (126541, 126543), (126545, 126546), (126548, 126548),
     (126551, 126551), (126553, 126553), (126555, 126555), (126557, 126557), (126559, 126559), (126561, 126562), (126564, 126564),
     (126567, 126570), (126572, 126578), (126580, 126583), (126585, 126588), (126590, 126590), (126592, 126601), (126603, 126619),
     (126625, 126627), (126629, 126633), (126635, 126651), (127232, 127244), (130032, 130041), (131072, 173791), (173824, 177976),
     (177984, 178205), (178208, 183969), (183984, 191456), (194560, 195101), (196608, 201546)]"
definition isspace :: "nat \<Rightarrow> bool" where
  "isspace c = in_ranges c space_ranges"

definition isdecimal :: "nat \<Rightarrow> bool" where
  "isdecimal c = in_ranges c decimal_ranges"

definition isalnum :: "nat \<Rightarrow> bool" where
  "isalnum c = in_ranges c alnum_ranges"

definition re_s :: "nat \<Rightarrow> bool" where
  "re_s c = isspace c"

definition re_d :: "nat \<Rightarrow> bool" where
  "re_d c = isdecimal c"

definition re_w :: "nat \<Rightarrow> bool" where
  "re_w c = (isalnum c \<or> c = 95)"

text \<open>A range \<open>x-y\<close> inside a bracket expression.\<close>

definition rng :: "nat \<Rightarrow> nat \<Rightarrow> nat \<Rightarrow> bool" where
  "rng lo hi c = (lo \<le> c \<and> c \<le> hi)"

section \<open>Regular expressions\<close>

text \<open>
  Patterns are terms of \<open>rx\<close>; a bracket expression is a predicate on code points.
  \<open>re.match\<close> returns a match object exactly when some way of matching the pattern from
  position 0 exists, so for the Boolean result the backtracking engine is modelled by
  Brzozowski derivatives.
\<close>

datatype rx =
    Nul
  | Eps
  | Cls "nat \<Rightarrow> bool"
  | Seq rx rx
  | Alt rx rx
  | Star rx

fun nullable :: "rx \<Rightarrow> bool" where
  "nullable Nul = False"
| "nullable Eps = True"
| "nullable (Cls p) = False"
| "nullable (Seq r s) = (nullable r \<and> nullable s)"
| "nullable (Alt r s) = (nullable r \<or> nullable s)"
| "nullable (Star r) = True"

fun deriv :: "nat \<Rightarrow> rx \<Rightarrow> rx" where
  "deriv c Nul = Nul"
| "deriv c Eps = Nul"
| "deriv c (Cls p) = (if p c then Eps else Nul)"
| "deriv c (Seq r s) =
     (if nullable r then Alt (Seq (deriv c r) s) (deriv c s) else Seq (deriv c r) s)"
| "deriv c (Alt r s) = Alt (deriv c r) (deriv c s)"
| "deriv c (Star r) = Seq (deriv c r) (Star r)"

fun matches :: "rx \<Rightarrow> str \<Rightarrow> bool" where
  "matches r [] = nullable r"
| "matches r (c # cs) = matches (deriv c r) cs"

text \<open>The quantifiers \<open>+\<close>, \<open>{n}\<close> and \<open>{n,}\<close>.\<close>

definition Plus :: "rx \<Rightarrow> rx" where
  "Plus r = Seq r (Star r)"

fun Rep :: "nat \<Rightarrow> rx \<Rightarrow> rx" where
  "Rep 0 r = Eps"
| "Rep (Suc n) r = Seq r (Rep n r)"

definition AtLeast :: "nat \<Rightarrow> rx \<Rightarrow> rx" where
  "AtLeast n r = Seq (Rep n r) (Star r)"

text \<open>
  Every pattern of the source has the shape \<open>^r$\<close> and is used with \<open>re.match\<close> and no
  flags. \<open>^\<close> is the start of the string. \<open>$\<close> holds at the end of the string and also
  just before a line feed that is the last character of the string. So the call succeeds
  when \<open>r\<close> matches the whole string, or the whole string without its final line feed.
\<close>

definition re_match_anchored :: "rx \<Rightarrow> str \<Rightarrow> bool" where
  "re_match_anchored r s =
     (matches r s \<or> (s \<noteq> [] \<and> last s = 10 \<and> matches r (butlast s)))"

text \<open>\<open>re.match\<close> raises \<open>TypeError\<close> when the subject is not a string.\<close>

definition re_match :: "rx \<Rightarrow> pyval \<Rightarrow> pyerr + bool" where
  "re_match r v = (case v of PStr s \<Rightarrow> Inr (re_match_anchored r s) | _ \<Rightarrow> Inl TypeError)"

section \<open>The patterns of the field checks\<close>

text \<open>\<open>^[^\s@]+@([^\s@.,]+\.)+[^\s@.,]{2,}$\<close>\<close>

definition email_local :: "nat \<Rightarrow> bool" where
  "email_local c = (\<not> (re_s c \<or> c = 64))"

definition email_label :: "nat \<Rightarrow> bool" where
  "email_label c = (\<not> (re_s c \<or> c = 64 \<or> c = 46 \<or> c = 44))"

definition email_pattern :: rx where
  "email_pattern =
     Seq (Plus (Cls email_local))
       (Seq (Cls (\<lambda>c. c = 64))
         (Seq (Plus (Seq (Plus (Cls email_label)) (Cls (\<lambda>c. c = 46))))
              (AtLeast 2 (Cls email_label))))"

text \<open>\<open>^\d{12}$\<close>\<close>

definition inn_pattern :: rx where
  "inn_pattern = Rep 12 (Cls re_d)"

text \<open>\<open>^\d{2} \d{2}$\<close>\<close>

definition passport_pattern :: rx where
  "passport_pattern = Seq (Rep 2 (Cls re_d)) (Seq (Cls (\<lambda>c. c = 32)) (Rep 2 (Cls re_d)))"

text \<open>
  \<open>^[\wC\s\.\d-]* \d+$\<close>, where \<open>C\<close> stands for the two ranges of Cyrillic letters of
  the source, U+0430 to U+044F and U+0410 to U+042F.
\<close>

definition address_char :: "nat \<Rightarrow> bool" where
  "address_char c =
     (re_w c \<or> rng 1072 1103 c \<or> rng 1040 1071 c \<or> re_s c \<or> c = 46 \<or> re_d c \<or> c = 45)"

definition address_pattern :: rx where
  "address_pattern =
     Seq (Star (Cls address_char)) (Seq (Cls (\<lambda>c. c = 32)) (Plus (Cls re_d)))"

text \<open>\<open>^[a-zA-ZC -]+$\<close>, the pattern of occupation, academic degree and worldview.\<close>

definition name_char :: "nat \<Rightarrow> bool" where
  "name_char c =
     (rng 97 122 c \<or> rng 65 90 c \<or> rng 1072 1103 c \<or> rng 1040 1071 c \<or> c = 32 \<or> c = 45)"

definition name_pattern :: rx where
  "name_pattern = Plus (Cls name_char)"

section \<open>Conversion to \<open>int\<close>\<close>

text \<open>
  \<open>int(x)\<close> for a string that is not pure ASCII first maps every code point from 127
  on to ASCII: whitespace to a space, a decimal digit to its ASCII digit; at the first
  other one it puts \<open>?\<close> and cuts the buffer there.
\<close>

definition todecimal :: "nat \<Rightarrow> nat option" where
  "todecimal c =
     (case find (\<lambda>(lo, hi). lo \<le> c \<and> c \<le> hi) decimal_ranges of
        None \<Rightarrow> None
      | Some (lo, hi) \<Rightarrow> Some ((c - lo) mod 10))"

fun transform_loop :: "str \<Rightarrow> str" where
  "transform_loop [] = []"
| "transform_loop (c # cs) =
     (if c < 127 then c # transform_loop cs
      else if isspace c then 32 # transform_loop cs
      else (case todecimal c of
              None \<Rightarrow> [63]
            | Some d \<Rightarrow> (48 + d) # transform_loop cs))"

definition transform :: "str \<Rightarrow> str" where
  "transform s = (if list_all (\<lambda>c. c < 128) s then s else transform_loop s)"

text \<open>
  The buffer is then read in base 10: whitespace of the C locale, an optional sign,
  digits with single underscores between them, whitespace, and the end of the buffer.
  More digits than \<open>int_max_str_digits\<close> are refused (4300 is the default of
  \<open>sys.set_int_max_str_digits\<close>).
  Every failure is a \<open>ValueError\<close>, here \<open>None\<close>.
\<close>

definition int_max_str_digits :: nat where
  "int_max_str_digits = 4300"

definition c_isspace :: "nat \<Rightarrow> bool" where
  "c_isspace c = (c = 32 \<or> rng 9 13 c)"

definition c_isdigit :: "nat \<Rightarrow> bool" where
  "c_isdigit c = rng 48 57 c"

fun double_underscore :: "str \<Rightarrow> bool" where
  "double_underscore (a # b # cs) = ((a = 95 \<and> b = 95) \<or> double_underscore (b # cs))"
| "double_underscore cs = False"

definition long_from_string :: "str \<Rightarrow> int option" where
  "long_from_string buf =
     (let s1 = dropWhile c_isspace buf;
          sign = (if s1 \<noteq> [] \<and> hd s1 = 45 then - 1 else (1 :: int));
          s2 = (if s1 \<noteq> [] \<and> (hd s1 = 43 \<or> hd s1 = 45) then tl s1 else s1);
          body = takeWhile (\<lambda>c. c_isdigit c \<or> c = 95) s2;
          rest = dropWhile (\<lambda>c. c_isdigit c \<or> c = 95) s2;
          ds = filter c_isdigit body
      in if body = [] then None
         else if hd body = 95 \<or> last body = 95 \<or> double_underscore body then None
         else if length ds > int_max_str_digits then None
         else if dropWhile c_isspace rest \<noteq> [] then None
         else Some (sign * foldl (\<lambda>a c. 10 * a + int (c - 48)) 0 ds))"

definition py_int :: "pyval \<Rightarrow> pyerr + int" where
  "py_int v =
     (case v of
        PStr s \<Rightarrow> (case long_from_string (transform s) of
                    None \<Rightarrow> Inl ValueError
                  | Some n \<Rightarrow> Inr n)
      | PInt n \<Rightarrow> Inr n
      | PBool b \<Rightarrow> Inr (if b then 1 else 0)
      | PNone \<Rightarrow> Inl TypeError)"

section \<open>Entry and Validator\<close>

record entry =
  curdict :: "str \<rightharpoonup> pyval"
  email :: pyval
  weight :: pyval
  inn :: pyval
  passport_series :: pyval
  occupation :: pyval
  age :: pyval
  academic_degree :: pyval
  worldview :: pyval
  address :: pyval

text \<open>Sequencing of computations that may raise.\<close>

definition and_then :: "pyerr + 'a \<Rightarrow> ('a \<Rightarrow> pyerr + 'b) \<Rightarrow> pyerr + 'b" where
  "and_then m f = (case m of Inl err \<Rightarrow> Inl err | Inr x \<Rightarrow> f x)"

definition getitem :: "(str \<rightharpoonup> pyval) \<Rightarrow> str \<Rightarrow> pyerr + pyval" where
  "getitem dic k = (case dic k of None \<Rightarrow> Inl KeyError | Some v \<Rightarrow> Inr v)"

definition Entry :: "(str \<rightharpoonup> pyval) \<Rightarrow> pyerr + entry" where
  "Entry dic =
     and_then (getitem dic (lit ''email'')) (\<lambda>v1.
     and_then (getitem dic (lit ''weight'')) (\<lambda>v2.
     and_then (getitem dic (lit ''inn'')) (\<lambda>v3.
     and_then (getitem dic (lit ''passport_series'')) (\<lambda>v4.
     and_then (getitem dic (lit ''occupation'')) (\<lambda>v5.
     and_then (getitem dic (lit ''age'')) (\<lambda>v6.
     and_then (getitem dic (lit ''academic_degree'')) (\<lambda>v7.
     and_then (getitem dic (lit ''worldview'')) (\<lambda>v8.
     and_then (getitem dic (lit ''address'')) (\<lambda>v9.
       Inr \<lparr>curdict = dic, email = v1, weight = v2, inn = v3, passport_series = v4,
            occupation = v5, age = v6, academic_degree = v7, worldview = v8,
            address = v9\<rparr>)))))))))"

record validator =
  entries :: "entry list"

fun Validator_loop :: "(str \<rightharpoonup> pyval) list \<Rightarrow> entry list \<Rightarrow> pyerr + entry list" where
  "Validator_loop [] acc = Inr acc"
| "Validator_loop (i # rest) acc =
     (case Entry i of Inl err \<Rightarrow> Inl err | Inr e \<Rightarrow> Validator_loop rest (acc @ [e]))"

definition Validator :: "(str \<rightharpoonup> pyval) list \<Rightarrow> pyerr + validator" where
  "Validator ds =
     (case Validator_loop ds [] of Inl err \<Rightarrow> Inl err | Inr es \<Rightarrow> Inr \<lparr>entries = es\<rparr>)"

section \<open>The field checks\<close>

definition check_email :: "pyval \<Rightarrow> pyerr + bool" where
  "check_email v = re_match email_pattern v"

definition check_inn :: "pyval \<Rightarrow> pyerr + bool" where
  "check_inn v = re_match inn_pattern v"

definition check_passport :: "pyval \<Rightarrow> pyerr + bool" where
  "check_passport v = re_match passport_pattern v"

text \<open>The two numeric checks catch \<open>ValueError\<close> only.\<close>

definition check_weight :: "pyval \<Rightarrow> pyerr + bool" where
  "check_weight v =
     (case py_int v of
        Inl ValueError \<Rightarrow> Inr False
      | Inl err \<Rightarrow> Inl err
      | Inr iweight \<Rightarrow> Inr (iweight > 25 \<and> iweight < 300))"

definition check_age :: "pyval \<Rightarrow> pyerr + bool" where
  "check_age v =
     (case py_int v of
        Inl ValueError \<Rightarrow> Inr False
      | Inl err \<Rightarrow> Inl err
      | Inr iage \<Rightarrow> Inr (iage \<ge> 18 \<and> iage < 110))"

definition check_address :: "pyval \<Rightarrow> pyerr + bool" where
  "check_address v = re_match address_pattern v"

definition check_occupation :: "pyval \<Rightarrow> pyerr + bool" where
  "check_occupation v = re_match name_pattern v"

definition check_degree :: "pyval \<Rightarrow> pyerr + bool" where
  "check_degree v = re_match name_pattern v"

definition check_worldview :: "pyval \<Rightarrow> pyerr + bool" where
  "check_worldview v = re_match name_pattern v"

section \<open>Classification of one entry and of the batch\<close>

definition parse_entry :: "entry \<Rightarrow> pyerr + str list" where
  "parse_entry e =
     and_then (check_email (email e)) (\<lambda>ok1.
     if \<not> ok1 then Inr [lit ''email''] else
     and_then (check_inn (inn e)) (\<lambda>ok2.
     if \<not> ok2 then Inr [lit ''inn''] else
     and_then (check_passport (passport_series e)) (\<lambda>ok3.
     if \<not> ok3 then Inr [lit ''passport_series''] else
     and_then (check_weight (weight e)) (\<lambda>ok4.
     if \<not> ok4 then Inr [lit ''weight''] else
     and_then (check_age (age e)) (\<lambda>ok5.
     if \<not> ok5 then Inr [lit ''age''] else
     and_then (check_address (address e)) (\<lambda>ok6.
     if \<not> ok6 then Inr [lit ''address''] else
     and_then (check_occupation (occupation e)) (\<lambda>ok7.
     if \<not> ok7 then Inr [lit ''occupation''] else
     and_then (check_degree (academic_degree e)) (\<lambda>ok8.
     if \<not> ok8 then Inr [lit ''academic_degree''] else
     and_then (check_worldview (worldview e)) (\<lambda>ok9.
     if \<not> ok9 then Inr [lit ''worldview''] else Inr [])))))))))"

text \<open>
  The loop of \<open>parse\<close> over \<open>self.entries\<close>, with the two result lists as accumulators.
  An exception of \<open>parse_entry\<close> leaves the loop.
\<close>

fun parse_loop ::
  "entry list \<Rightarrow> str list list \<Rightarrow> entry list \<Rightarrow> pyerr + (str list list \<times> entry list)"
where
  "parse_loop [] illegal_entries legal_entries = Inr (illegal_entries, legal_entries)"
| "parse_loop (i # rest) illegal_entries legal_entries =
     (case parse_entry i of
        Inl err \<Rightarrow> Inl err
      | Inr illkeys \<Rightarrow>
          if length illkeys \<noteq> 0
          then parse_loop rest (illegal_entries @ [illkeys]) legal_entries
          else parse_loop rest illegal_entries (legal_entries @ [i]))"

text \<open>
  \<open>parse\<close> is a method: it takes the validator and gives back its result together with
  the validator as the call leaves it.
\<close>

definition parse ::
  "validator \<Rightarrow> (pyerr + (str list list \<times> entry list)) \<times> validator"
where
  "parse self = (parse_loop (entries self) [] [], self)"

section \<open>Reporting\<close>

text \<open>\<open>str(n)\<close> and \<open>'%d' % n\<close> for an integer.\<close>

fun digits10 :: "nat \<Rightarrow> str" where
  "digits10 n = (if n < 10 then [48 + n] else digits10 (n div 10) @ [48 + n mod 10])"

declare digits10.simps [simp del]

definition str_int :: "int \<Rightarrow> str" where
  "str_int n = (if n < 0 then 45 # digits10 (nat (- n)) else digits10 (nat n))"

text \<open>
  \<open>errors_count\<close> is a dictionary; its iteration order is the order of insertion, so it
  is an association list. \<open>errors_count[j] += 1\<close> reads the key first and raises
  \<open>KeyError\<close> when it is absent.
\<close>

definition errors_count_init :: "(str \<times> int) list" where
  "errors_count_init =
     [(lit ''email'', 0), (lit ''weight'', 0), (lit ''inn'', 0), (lit ''passport_series'', 0),
      (lit ''occupation'', 0), (lit ''age'', 0), (lit ''academic_degree'', 0),
      (lit ''worldview'', 0), (lit ''address'', 0)]"

fun incr :: "str \<Rightarrow> (str \<times> int) list \<Rightarrow> pyerr + (str \<times> int) list" where
  "incr j [] = Inl KeyError"
| "incr j ((k, n) # d) =
     (if k = j then Inr ((k, n + 1) # d)
      else (case incr j d of Inl err \<Rightarrow> Inl err | Inr d' \<Rightarrow> Inr ((k, n) # d')))"

fun count_keys ::
  "str list \<Rightarrow> int \<times> (str \<times> int) list \<Rightarrow> pyerr + (int \<times> (str \<times> int) list)"
where
  "count_keys [] st = Inr st"
| "count_keys (j # js) (all_errors_count, errors_count) =
     (case incr j errors_count of
        Inl err \<Rightarrow> Inl err
      | Inr d \<Rightarrow> count_keys js (all_errors_count + 1, d))"

fun count_errors ::
  "str list list \<Rightarrow> int \<times> (str \<times> int) list \<Rightarrow> pyerr + (int \<times> (str \<times> int) list)"
where
  "count_errors [] st = Inr st"
| "count_errors (i # rest) st =
     (case count_keys i st of Inl err \<Rightarrow> Inl err | Inr st' \<Rightarrow> count_errors rest st')"

text \<open>What \<open>show_summary\<close> leaves behind: text on standard output, or a file.\<close>

datatype sink = Printed str | Written str str

definition total_line :: str where
  "total_line = [1042, 1089, 1077, 1075, 1086, 32, 1086, 1096, 1080, 1073, 1086, 1082, 58, 32]"

definition by_type_line :: str where
  "by_type_line =
     [1050, 1086, 1083, 1080, 1095, 1077, 1089, 1090, 1074, 1086, 32, 1086, 1096, 1080,
      1073, 1086, 1082, 32, 1087, 1086, 32, 1090, 1080, 1087, 1072, 1084, 58, 32]"

definition item_lines :: "(str \<times> int) list \<Rightarrow> str" where
  "item_lines d = concat (map (\<lambda>(key, val). key @ lit '': '' @ str_int val @ [10]) d)"

definition show_summary :: "str list list \<Rightarrow> str \<Rightarrow> pyerr + sink" where
  "show_summary result filename =
     (case count_errors result (0, errors_count_init) of
        Inl err \<Rightarrow> Inl err
      | Inr (all_errors_count, errors_count) \<Rightarrow>
          if filename = []
          then Inr (Printed ([10] @ total_line @ str_int all_errors_count @ [10] @ [10]
                     @ by_type_line @ [10] @ item_lines errors_count))
          else Inr (Written filename (total_line @ str_int all_errors_count @ [10]
                     @ item_lines errors_count)))"

text \<open>The conversions \<open>%s\<close> and \<open>%d\<close> of the \<open>%\<close> operator.\<close>

definition fmt_s :: "pyval \<Rightarrow> str" where
  "fmt_s v =
     (case v of
        PStr s \<Rightarrow> s
      | PInt n \<Rightarrow> str_int n
      | PBool b \<Rightarrow> (if b then lit ''True'' else lit ''False'')
      | PNone \<Rightarrow> lit ''None'')"

definition fmt_d :: "pyval \<Rightarrow> pyerr + str" where
  "fmt_d v =
     (case v of
        PStr s \<Rightarrow> Inl TypeError
      | PInt n \<Rightarrow> Inr (str_int n)
      | PBool b \<Rightarrow> Inr (if b then lit ''1'' else lit ''0'')
      | PNone \<Rightarrow> Inl TypeError)"

text \<open>The template of one record, with its nine conversions filled in.\<close>

definition entry_text :: "entry \<Rightarrow> pyerr + str" where
  \<open>entry_text i =
     and_then (fmt_d (weight i)) (\<lambda>w.
     and_then (fmt_d (age i)) (\<lambda>a.
       Inr ([10] @ lit ''    {'' @ [10]
          @ lit ''      "email": "'' @ fmt_s (email i) @ lit ''",'' @ [10]
          @ lit ''      "weight": '' @ w @ lit '','' @ [10]
          @ lit ''      "inn": "'' @ fmt_s (inn i) @ lit ''",'' @ [10]
          @ lit ''      "passport_series": "'' @ fmt_s (passport_series i) @ lit ''",'' @ [10]
          @ lit ''      "occupation": "'' @ fmt_s (occupation i) @ lit ''",'' @ [10]
          @ lit ''      "age": '' @ a @ lit '','' @ [10]
          @ lit ''      "academic_degree": "'' @ fmt_s (academic_degree i) @ lit ''",'' @ [10]
          @ lit ''      "worldview": "'' @ fmt_s (worldview i) @ lit ''",'' @ [10]
          @ lit ''      "address": "'' @ fmt_s (address i) @ lit ''",'' @ [10]
          @ lit ''    },'')))\<close>

text \<open>
  The file is opened and \<open>[\<close> written before the loop; an exception of the formatting
  leaves the function with the file as written so far. The result is the name and the
  content of the file, and the exception if one left the function.
\<close>

fun save_loop :: "entry list \<Rightarrow> str \<Rightarrow> str \<times> pyerr option" where
  "save_loop [] f = (f, None)"
| "save_loop (i # rest) f =
     (case entry_text i of
        Inl err \<Rightarrow> (f, Some err)
      | Inr t \<Rightarrow> save_loop rest (f @ t))"

definition save_in_json :: "entry list \<Rightarrow> str \<Rightarrow> (str \<times> str) \<times> pyerr option" where
  "save_in_json data filename =
     (case save_loop data (lit ''['') of
        (f, Some err) \<Rightarrow> ((filename, f), Some err)
      | (f, None) \<Rightarrow> ((filename, f @ [10] @ lit '']''), None))"

section \<open>The specification's wording\<close>

text \<open>
  The specification describes the classification of one record as an ordered battery of
  (field name, check) pairs that is run until the first check that fails. The two
  definitions below follow that wording; \<open>parse_entry\<close> above follows the source.
\<close>

definition spec_checks :: "(str \<times> (entry \<Rightarrow> pyerr + bool)) list" where
  "spec_checks =
     [(lit ''email'', \<lambda>e. check_email (email e)),
      (lit ''inn'', \<lambda>e. check_inn (inn e)),
      (lit ''passport_series'', \<lambda>e. check_passport (passport_series e)),
      (lit ''weight'', \<lambda>e. check_weight (weight e)),
      (lit ''age'', \<lambda>e. check_age (age e)),
      (lit ''address'', \<lambda>e. check_address (address e)),
      (lit ''occupation'', \<lambda>e. check_occupation (occupation e)),
      (lit ''academic_degree'', \<lambda>e. check_degree (academic_degree e)),
      (lit ''worldview'', \<lambda>e. check_worldview (worldview e))]"

fun spec_first_failure ::
  "(str \<times> (entry \<Rightarrow> pyerr + bool)) list \<Rightarrow> entry \<Rightarrow> pyerr + str list"
where
  "spec_first_failure [] e = Inr []"
| "spec_first_failure ((name, chk) # rest) e =
     (case chk e of
        Inl err \<Rightarrow> Inl err
      | Inr ok \<Rightarrow> if ok then spec_first_failure rest e else Inr [name])"

text \<open>The data model of the specification: all nine fields are stored as text.\<close>

definition is_text :: "pyval \<Rightarrow> bool" where
  "is_text v = (case v of PStr s \<Rightarrow> True | _ \<Rightarrow> False)"

definition text_fields :: "entry \<Rightarrow> bool" where
  "text_fields e =
     (is_text (email e) \<and> is_text (weight e) \<and> is_text (inn e)
      \<and> is_text (passport_series e) \<and> is_text (occupation e) \<and> is_text (age e)
      \<and> is_text (academic_degree e) \<and> is_text (worldview e) \<and> is_text (address e))"

text \<open>The order of the fields in the report, and the tally the report is to show.\<close>

definition spec_report_order :: "str list" where
  "spec_report_order =
     [lit ''email'', lit ''weight'', lit ''inn'', lit ''passport_series'', lit ''occupation'',
      lit ''age'', lit ''academic_degree'', lit ''worldview'', lit ''address'']"

definition blamed_on :: "str \<Rightarrow> str list list \<Rightarrow> int" where
  "blamed_on k result = int (length (filter (\<lambda>keys. keys = [k]) result))"

definition spec_tally :: "str list list \<Rightarrow> (str \<times> int) list" where
  "spec_tally result = map (\<lambda>k. (k, blamed_on k result)) spec_report_order"

text \<open>
  The address rule of the specification: a text portion of Latin letters, Cyrillic
  letters, digits, spaces, periods and hyphens, then one space, then the house number,
  a run of one or more digits that ends the string.
\<close>

definition spec_address_char :: "nat \<Rightarrow> bool" where
  "spec_address_char c =
     (rng 97 122 c \<or> rng 65 90 c \<or> rng 1072 1103 c \<or> rng 1040 1071 c \<or> re_d c
      \<or> c = 32 \<or> c = 46 \<or> c = 45)"

definition spec_address :: "str \<Rightarrow> bool" where
  "spec_address s =
     (let number = rev (takeWhile re_d (rev s));
          front = rev (dropWhile re_d (rev s))
      in number \<noteq> [] \<and> front \<noteq> [] \<and> last front = 32
         \<and> list_all spec_address_char (butlast front))"

section \<open>Sample records\<close>

definition sample_dict :: "str \<rightharpoonup> pyval" where
  "sample_dict =
     map_of
       [(lit ''email'', PStr (lit ''a@b.co'')),
        (lit ''weight'', PStr (lit ''70'')),
        (lit ''inn'', PStr (lit ''123456789012'')),
        (lit ''passport_series'', PStr (lit ''12 34'')),
        (lit ''occupation'', PStr (lit ''engineer'')),
        (lit ''age'', PStr (lit ''30'')),
        (lit ''academic_degree'', PStr (lit ''master'')),
        (lit ''worldview'', PStr (lit ''atheism'')),
        (lit ''address'', PStr (lit ''Lenina 5''))]"

definition sample_entry :: entry where
  "sample_entry =
     \<lparr>curdict = sample_dict,
      email = PStr (lit ''a@b.co''),
      weight = PStr (lit ''70''),
      inn = PStr (lit ''123456789012''),
      passport_series = PStr (lit ''12 34''),
      occupation = PStr (lit ''engineer''),
      age = PStr (lit ''30''),
      academic_degree = PStr (lit ''master''),
      worldview = PStr (lit ''atheism''),
      address = PStr (lit ''Lenina 5'')\<rparr>"

text \<open>The same record with a short tax number and a weight that is not a number.\<close>

definition bad_inn_entry :: entry where
  "bad_inn_entry = sample_entry\<lparr>inn := PStr (lit ''12345''), weight := PStr (lit ''abc'')\<rparr>"

text \<open>The same record with weight and age as JSON numbers.\<close>

definition numeric_entry :: entry where
  "numeric_entry = sample_entry\<lparr>weight := PInt 70, age := PInt 30\<rparr>"

text \<open>A validator that holds three records, the second of them invalid.\<close>

definition sample_validator :: validator where
  "sample_validator = \<lparr>entries = [sample_entry, bad_inn_entry, sample_entry]\<rparr>"

section \<open>Evaluation rules\<close>

lemma Rep_numeral: "Rep (numeral k) r = Seq r (Rep (pred_numeral k) r)"
  by (simp add: numeral_eq_Suc)

lemmas class_defs = re_s_def re_d_def re_w_def isspace_def isdecimal_def in_ranges_def
  space_ranges_def decimal_ranges_def rng_def

lemmas match_defs = re_match_def re_match_anchored_def Plus_def AtLeast_def Rep_numeral lit_def

lemmas int_defs = check_weight_def check_age_def py_int_def long_from_string_def
  int_max_str_digits_def transform_def lit_def c_isspace_def c_isdigit_def rng_def Let_def

lemmas check_defs = check_email_def check_inn_def check_passport_def check_address_def
  check_occupation_def check_degree_def check_worldview_def

lemmas pattern_defs = email_pattern_def email_local_def email_label_def inn_pattern_def
  passport_pattern_def address_pattern_def address_char_def name_pattern_def name_char_def

lemma isalnum_ascii:
  assumes "rng 48 57 c \<or> rng 65 90 c \<or> rng 97 122 c"
  shows "isalnum c"
proof -
  let ?P = "\<lambda>(lo, hi). lo \<le> c \<and> c \<le> hi"
  have "list_ex ?P [(48, 57), (65, 90), (97, 122)]"
    using assms by (simp add: rng_def)
  then have a: "list_ex ?P ([(48, 57), (65, 90), (97, 122)] @ drop 3 alnum_ranges)"
    unfolding list_ex_append by (rule disjI1)
  have b: "[(48, 57), (65, 90), (97, 122)] @ drop 3 alnum_ranges = alnum_ranges"
    by (simp add: alnum_ranges_def)
  from a show ?thesis
    unfolding b isalnum_def in_ranges_def .
qed


section \<open>The numeric checks\<close>

text \<open>A decimal numeral written by \<open>str\<close> is read back by \<open>int\<close>.\<close>

lemma digits10_digits: "list_all c_isdigit (digits10 n)"
proof (induction n rule: digits10.induct)
  case (1 n)
  show ?case
  proof (cases "n < 10")
    case True
    then show ?thesis by (subst digits10.simps) (simp add: c_isdigit_def rng_def)
  next
    case False
    with 1 have "list_all c_isdigit (digits10 (n div 10))" by simp
    with False show ?thesis by (subst digits10.simps) (simp add: c_isdigit_def rng_def)
  qed
qed

lemma digits10_nonempty: "digits10 n \<noteq> []"
  by (subst digits10.simps) simp

lemma digits10_value: "foldl (\<lambda>a c. 10 * a + int (c - 48)) 0 (digits10 n) = int n"
proof (induction n rule: digits10.induct)
  case (1 n)
  show ?case
  proof (cases "n < 10")
    case True
    then show ?thesis by (subst digits10.simps) simp
  next
    case False
    with 1 have "foldl (\<lambda>a c. 10 * a + int (c - 48)) 0 (digits10 (n div 10)) = int (n div 10)"
      by simp
    with False show ?thesis by (subst digits10.simps) (simp add: zdiv_int zmod_int)
  qed
qed

lemma digits10_length: "0 < k \<Longrightarrow> n < 10 ^ k \<Longrightarrow> length (digits10 n) \<le> k"
proof (induction n arbitrary: k rule: digits10.induct)
  case (1 n)
  show ?case
  proof (cases "n < 10")
    case True
    with 1(2) show ?thesis by (subst digits10.simps) simp
  next
    case False
    with 1(3) have "1 < k" by (cases "k = 1") (use 1(2) in auto)
    then obtain k' where k: "k = Suc k'" "0 < k'" by (cases k) auto
    with 1(3) have "n div 10 < 10 ^ k'" by (simp add: less_mult_imp_div_less mult.commute)
    with 1(1) False k have "length (digits10 (n div 10)) \<le> k'" by simp
    with False k show ?thesis by (subst digits10.simps) simp
  qed
qed


lemma digit_facts:
  assumes "c_isdigit c"
  shows "\<not> c_isspace c" "c \<noteq> 95" "c \<noteq> 45" "c \<noteq> 43" "c < 128"
  using assms by (auto simp: c_isdigit_def c_isspace_def rng_def)

lemma no_double_underscore: "list_all (\<lambda>c. c \<noteq> 95) cs \<Longrightarrow> \<not> double_underscore cs"
  by (induction cs rule: double_underscore.induct) auto

lemma long_from_string_digits:
  assumes ne: "ds \<noteq> []" and dig: "list_all c_isdigit ds" and len: "length ds \<le> int_max_str_digits"
  shows "long_from_string ds = Some (foldl (\<lambda>a c. 10 * a + int (c - 48)) 0 ds)"
    and "long_from_string (45 # ds) = Some (- foldl (\<lambda>a c. 10 * a + int (c - 48)) 0 ds)"
proof -
  from ne obtain d rest where ds: "ds = d # rest" by (cases ds) auto
  with dig have d: "c_isdigit d" by simp
  have all: "\<forall>c \<in> set ds. c_isdigit c \<or> c = 95"
    using dig by (simp add: list_all_iff)
  have tw: "takeWhile (\<lambda>c. c_isdigit c \<or> c = 95) ds = ds"
    using all by (simp add: takeWhile_eq_all_conv)
  have dw: "dropWhile (\<lambda>c. c_isdigit c \<or> c = 95) ds = []"
    using all by simp
  have fl: "filter c_isdigit ds = ds"
    using dig by (simp add: list_all_iff)
  have dsp: "dropWhile c_isspace ds = ds"
    using d digit_facts(1) by (simp add: ds)
  have hd95: "hd ds \<noteq> 95"
    using d digit_facts(2) by (simp add: ds)
  have "last ds \<in> set ds" using ne by simp
  with dig have "c_isdigit (last ds)" by (simp add: list_all_iff)
  then have last95: "last ds \<noteq> 95" by (rule digit_facts(2))
  have "list_all (\<lambda>c. c \<noteq> 95) ds"
    using dig digit_facts(2) by (auto simp: list_all_iff)
  then have nd: "\<not> double_underscore ds" by (rule no_double_underscore)
  have hd4: "hd ds \<noteq> 45" "hd ds \<noteq> 43"
    using d digit_facts(3,4) by (simp_all add: ds)
  show "long_from_string ds = Some (foldl (\<lambda>a c. 10 * a + int (c - 48)) 0 ds)"
    using ne len hd4 hd95 last95 nd
    by (simp add: long_from_string_def Let_def dsp tw dw fl)
  have sp45: "\<not> c_isspace 45" by (simp add: c_isspace_def rng_def)
  show "long_from_string (45 # ds) = Some (- foldl (\<lambda>a c. 10 * a + int (c - 48)) 0 ds)"
    using ne len hd95 last95 nd
    by (simp add: long_from_string_def Let_def sp45 tw dw fl)
qed

lemma py_int_str_int:
  assumes "\<bar>n\<bar> < 10 ^ int_max_str_digits"
  shows "py_int (PStr (str_int n)) = Inr n"
proof -
  let ?ds = "digits10 (nat \<bar>n\<bar>)"
  have "nat \<bar>n\<bar> < 10 ^ int_max_str_digits"
    using assms by (simp add: nat_less_iff)
  then have len: "length ?ds \<le> int_max_str_digits"
    by (rule digits10_length [rotated]) (simp add: int_max_str_digits_def)
  have dig: "list_all c_isdigit ?ds" by (rule digits10_digits)
  have ne: "?ds \<noteq> []" by (rule digits10_nonempty)
  have ascii: "list_all (\<lambda>c. c < 128) ?ds"
    using dig digit_facts(5) by (auto simp: list_all_iff)
  have val: "foldl (\<lambda>a c. 10 * a + int (c - 48)) 0 ?ds = \<bar>n\<bar>"
    by (simp add: digits10_value)
  show ?thesis
  proof (cases "n < 0")
    case True
    then have "str_int n = 45 # ?ds" by (simp add: str_int_def)
    with True ascii long_from_string_digits(2) [OF ne dig len] val show ?thesis
      by (simp add: py_int_def transform_def)
  next
    case False
    then have "str_int n = ?ds" by (simp add: str_int_def)
    with False ascii long_from_string_digits(1) [OF ne dig len] val show ?thesis
      by (simp add: py_int_def transform_def)
  qed
qed

text \<open>
  C3. For a text value, \<open>check_weight\<close> is true exactly when \<open>int\<close> reads an integer
  strictly between 25 and 300, and \<open>check_age\<close> exactly when it reads an integer from 18
  up to, but not including, 110; both are false when \<open>int\<close> raises \<open>ValueError\<close>, and
  neither raises. For an integer written in decimal the two checks are the two
  comparisons. Weights 25 and 300 are refused, 26 and 299 accepted; ages 17 and 110 are
  refused, 18 and 109 accepted.
\<close>

theorem check_weight_age_bounds:
  "(check_weight (PStr s) = Inr True)
      = (\<exists>w. py_int (PStr s) = Inr w \<and> 25 < w \<and> w < 300)
   \<and> (check_age (PStr s) = Inr True)
      = (\<exists>a. py_int (PStr s) = Inr a \<and> 18 \<le> a \<and> a < 110)
   \<and> (py_int (PStr s) = Inl ValueError
        \<longrightarrow> check_weight (PStr s) = Inr False \<and> check_age (PStr s) = Inr False)
   \<and> (\<exists>b. check_weight (PStr s) = Inr b) \<and> (\<exists>b. check_age (PStr s) = Inr b)
   \<and> (\<forall>n. \<bar>n\<bar> < 10 ^ int_max_str_digits \<longrightarrow>
         check_weight (PStr (str_int n)) = Inr (25 < n \<and> n < 300)
       \<and> check_age (PStr (str_int n)) = Inr (18 \<le> n \<and> n < 110))
   \<and> check_weight (PStr (lit ''25'')) = Inr False
   \<and> check_weight (PStr (lit ''26'')) = Inr True
   \<and> check_weight (PStr (lit ''299'')) = Inr True
   \<and> check_weight (PStr (lit ''300'')) = Inr False
   \<and> check_age (PStr (lit ''17'')) = Inr False
   \<and> check_age (PStr (lit ''18'')) = Inr True
   \<and> check_age (PStr (lit ''109'')) = Inr True
   \<and> check_age (PStr (lit ''110'')) = Inr False"
proof -
  have str_cases: "py_int (PStr s) = Inl ValueError \<or> (\<exists>n. py_int (PStr s) = Inr n)"
    by (simp add: py_int_def split: option.splits)
  have w: "(check_weight (PStr s) = Inr True)
      = (\<exists>w. py_int (PStr s) = Inr w \<and> 25 < w \<and> w < 300)"
    using str_cases by (auto simp: check_weight_def)
  have a: "(check_age (PStr s) = Inr True)
      = (\<exists>a. py_int (PStr s) = Inr a \<and> 18 \<le> a \<and> a < 110)"
    using str_cases by (auto simp: check_age_def)
  have v: "py_int (PStr s) = Inl ValueError
        \<longrightarrow> check_weight (PStr s) = Inr False \<and> check_age (PStr s) = Inr False"
    by (simp add: check_weight_def check_age_def)
  have r: "(\<exists>b. check_weight (PStr s) = Inr b) \<and> (\<exists>b. check_age (PStr s) = Inr b)"
    using str_cases by (auto simp: check_weight_def check_age_def)
  have d: "\<forall>n. \<bar>n\<bar> < 10 ^ int_max_str_digits \<longrightarrow>
         check_weight (PStr (str_int n)) = Inr (25 < n \<and> n < 300)
       \<and> check_age (PStr (str_int n)) = Inr (18 \<le> n \<and> n < 110)"
    by (simp add: check_weight_def check_age_def py_int_str_int)
  have b1: "check_weight (PStr (lit ''25'')) = Inr False" by (simp add: int_defs)
  have b2: "check_weight (PStr (lit ''26'')) = Inr True" by (simp add: int_defs)
  have b3: "check_weight (PStr (lit ''299'')) = Inr True" by (simp add: int_defs)
  have b4: "check_weight (PStr (lit ''300'')) = Inr False" by (simp add: int_defs)
  have b5: "check_age (PStr (lit ''17'')) = Inr False" by (simp add: int_defs)
  have b6: "check_age (PStr (lit ''18'')) = Inr True" by (simp add: int_defs)
  have b7: "check_age (PStr (lit ''109'')) = Inr True" by (simp add: int_defs)
  have b8: "check_age (PStr (lit ''110'')) = Inr False" by (simp add: int_defs)
  show ?thesis
    by (intro conjI) (fact w a v d b1 b2 b3 b4 b5 b6 b7 b8 conjunct1 [OF r] conjunct2 [OF r])+
qed

theorem check_weight_age_bounds_witness:
  "py_int (PStr (lit ''abc'')) = Inl ValueError
   \<and> check_weight (PStr (lit ''abc'')) = Inr False
   \<and> check_age (PStr (lit ''abc'')) = Inr False
   \<and> \<bar>26 :: int\<bar> < 10 ^ int_max_str_digits
   \<and> check_weight (PStr (str_int 26)) = Inr True
   \<and> check_age (PStr (str_int 26)) = Inr True"
proof -
  have v: "py_int (PStr (lit ''abc'')) = Inl ValueError" by (simp add: int_defs)
  have "(10 :: int) ^ 2 \<le> 10 ^ int_max_str_digits"
    by (rule power_increasing) (simp_all add: int_max_str_digits_def)
  then have s: "\<bar>26 :: int\<bar> < 10 ^ int_max_str_digits" by simp
  from check_weight_age_bounds [of "lit ''abc''"] v s show ?thesis by simp
qed

text \<open>
  C10. The numeric checks accept what \<open>int\<close> accepts, not only plain digit strings:
  surrounding whitespace, a leading sign and an underscore between digits all pass, for
  the weight and for the age.
\<close>

theorem numeric_checks_accept_int_syntax:
  "check_weight (PStr (lit '' 26 '')) = Inr True
   \<and> check_weight (PStr (lit ''+30'')) = Inr True
   \<and> check_weight (PStr (lit ''2_6'')) = Inr True
   \<and> check_age (PStr (lit '' 26 '')) = Inr True
   \<and> check_age (PStr (lit ''+30'')) = Inr True
   \<and> check_age (PStr (lit ''2_6'')) = Inr True"
  by (simp add: int_defs)

section \<open>The sample record and the examples of the specification\<close>

lemma Entry_sample: "Entry sample_dict = Inr sample_entry"
  by (simp add: Entry_def getitem_def and_then_def sample_dict_def sample_entry_def lit_def)

lemma sample_checks:
  "check_email (email sample_entry) = Inr True"
  "check_inn (inn sample_entry) = Inr True"
  "check_passport (passport_series sample_entry) = Inr True"
  "check_weight (weight sample_entry) = Inr True"
  "check_age (age sample_entry) = Inr True"
  "check_address (address sample_entry) = Inr True"
  "check_occupation (occupation sample_entry) = Inr True"
  "check_degree (academic_degree sample_entry) = Inr True"
  "check_worldview (worldview sample_entry) = Inr True"
  by (simp_all add: sample_entry_def check_defs pattern_defs match_defs class_defs int_defs
      isalnum_ascii)

lemma parse_entry_sample: "parse_entry sample_entry = Inr []"
  by (simp add: parse_entry_def and_then_def sample_checks)

section \<open>The pattern checks\<close>

text \<open>
  C5. \<open>check_inn\<close> is to hold for exactly the strings of twelve decimal digits. The
  source accepts a string of thirteen characters: twelve digits and a final line feed,
  which is not a digit.
\<close>

theorem check_inn_accepts_final_newline:
  "check_inn (PStr (lit ''123456789012'' @ [10])) = Inr True
   \<and> length (lit ''123456789012'' @ [10]) = 13
   \<and> \<not> re_d 10"
  by (simp add: check_defs pattern_defs match_defs class_defs)

text \<open>
  C4. \<open>check_email\<close> is to refuse every string with a comma or with two dots in a row.
  The source accepts both in the part before the \<open>@\<close>.
\<close>

theorem check_email_accepts_comma:
  "check_email (PStr (lit ''a,b@c.co'')) = Inr True
   \<and> 44 \<in> set (lit ''a,b@c.co'')
   \<and> check_email (PStr (lit ''a..b@c.co'')) = Inr True"
  by (simp add: check_defs pattern_defs match_defs class_defs)

lemma spec_examples:
  "check_email (PStr (lit ''a@b.co'')) = Inr True"
  "check_email (PStr (lit ''a@b'')) = Inr False"
  "check_email (PStr (lit ''a b@c.co'')) = Inr False"
  "check_inn (PStr (lit ''123456789012'')) = Inr True"
  "check_inn (PStr (lit ''12345'')) = Inr False"
  "check_passport (PStr (lit ''12 34'')) = Inr True"
  "check_passport (PStr (lit ''1234'')) = Inr False"
  "check_address (PStr (lit ''Lenina 5'')) = Inr True"
  "check_address (PStr (lit ''Lenina'')) = Inr False"
  by (simp_all add: check_defs pattern_defs match_defs class_defs isalnum_ascii)


section \<open>Classification of one record\<close>

lemma and_then_blame:
  "and_then m (\<lambda>ok. if \<not> ok then Inr [n] else k) =
     (case m of Inl err \<Rightarrow> Inl err | Inr ok \<Rightarrow> if ok then k else Inr [n])"
  by (simp add: and_then_def split: sum.splits)

lemma parse_entry_battery: "parse_entry e = spec_first_failure spec_checks e"
  unfolding parse_entry_def spec_checks_def and_then_blame
  by (simp cong: sum.case_cong if_cong)

lemma first_failure_at_most_one:
  "spec_first_failure cs e = Inr keys \<Longrightarrow> length keys \<le> 1"
  by (induction cs e rule: spec_first_failure.induct) (auto split: sum.splits if_splits)

lemma first_failure_blamed:
  "spec_first_failure cs e = Inr [n] \<Longrightarrow>
     \<exists>pre chk post. cs = pre @ (n, chk) # post \<and> chk e = Inr False
       \<and> list_all (\<lambda>(m, c). c e = Inr True) pre"
proof (induction cs e rule: spec_first_failure.induct)
  case (1 e)
  then show ?case by simp
next
  case (2 name chk rest e)
  show ?case
  proof (cases "chk e")
    case (Inl err)
    with 2(2) show ?thesis by simp
  next
    case (Inr ok)
    show ?thesis
    proof (cases ok)
      case True
      from Inr True 2(2) have "spec_first_failure rest e = Inr [n]" by simp
      from 2(1) [OF Inr True this] obtain pre c post where
        "rest = pre @ (n, c) # post" "c e = Inr False" "list_all (\<lambda>(m, c). c e = Inr True) pre"
        by blast
      with Inr True have
        "(name, chk) # rest = ((name, chk) # pre) @ (n, c) # post \<and> c e = Inr False
          \<and> list_all (\<lambda>(m, c). c e = Inr True) ((name, chk) # pre)"
        by simp
      then show ?thesis by blast
    next
      case False
      with Inr 2(2) have "(name, chk) # rest = [] @ (n, chk) # rest \<and> chk e = Inr False
          \<and> list_all (\<lambda>(m, c). c e = Inr True) []"
        by simp
      then show ?thesis by blast
    qed
  qed
qed

lemma first_failure_none:
  "(spec_first_failure cs e = Inr []) = list_all (\<lambda>(m, c). c e = Inr True) cs"
  by (induction cs e rule: spec_first_failure.induct) (auto split: sum.splits)

lemma first_failure_not_later:
  "spec_first_failure (pre @ (n, chk) # post) e = Inr [n] \<Longrightarrow> n \<notin> fst ` set pre \<Longrightarrow>
     list_all (\<lambda>(m, c). c e = Inr True) pre"
proof (induction pre)
  case Nil
  then show ?case by simp
next
  case (Cons a pre)
  obtain m c where a: "a = (m, c)" by (cases a)
  from Cons.prems(2) a have m: "m \<noteq> n" and notin: "n \<notin> fst ` set pre" by auto
  from Cons.prems(1) a m have "c e = Inr True"
    by (auto split: sum.splits if_splits)
  moreover from this Cons.prems(1) a
  have "spec_first_failure (pre @ (n, chk) # post) e = Inr [n]" by simp
  with Cons.IH notin have "list_all (\<lambda>(m, c). c e = Inr True) pre" by simp
  ultimately show ?case using a by simp
qed

lemma spec_checks_distinct: "distinct (map fst spec_checks)"
  by (simp add: spec_checks_def lit_def)

lemma split_distinct:
  assumes "distinct (map fst xs)" and "xs = pre @ (n, chk) # post"
  shows "n \<notin> fst ` set pre"
  using assms by auto

text \<open>
  C1. \<open>parse_entry\<close> is the battery of the nine checks in the order email, inn,
  passport_series, weight, age, address, occupation, academic_degree, worldview, stopped
  at the first check that fails. A blamed field is one whose check fails while every
  check before it passes; the result is empty exactly when all nine pass; a record with
  a failing earlier check is never blamed for a later field; at most one field is blamed.
\<close>

theorem parse_entry_first_failure:
  "parse_entry e = spec_first_failure spec_checks e
   \<and> (\<forall>n. parse_entry e = Inr [n] \<longrightarrow>
         (\<exists>pre chk post. spec_checks = pre @ (n, chk) # post \<and> chk e = Inr False
            \<and> list_all (\<lambda>(m, c). c e = Inr True) pre))
   \<and> ((parse_entry e = Inr []) = list_all (\<lambda>(m, c). c e = Inr True) spec_checks)
   \<and> (\<forall>pre n chk post.
         spec_checks = pre @ (n, chk) # post \<and> list_ex (\<lambda>(m, c). c e = Inr False) pre
         \<longrightarrow> parse_entry e \<noteq> Inr [n])
   \<and> (\<forall>keys. parse_entry e = Inr keys \<longrightarrow> length keys \<le> 1)"
proof (intro conjI allI impI)
  show "parse_entry e = spec_first_failure spec_checks e"
    by (rule parse_entry_battery)
next
  fix n
  assume "parse_entry e = Inr [n]"
  then show "\<exists>pre chk post. spec_checks = pre @ (n, chk) # post \<and> chk e = Inr False
            \<and> list_all (\<lambda>(m, c). c e = Inr True) pre"
    unfolding parse_entry_battery by (rule first_failure_blamed)
next
  show "(parse_entry e = Inr []) = list_all (\<lambda>(m, c). c e = Inr True) spec_checks"
    unfolding parse_entry_battery by (rule first_failure_none)
next
  fix pre n chk post
  assume a: "spec_checks = pre @ (n, chk) # post \<and> list_ex (\<lambda>(m, c). c e = Inr False) pre"
  show "parse_entry e \<noteq> Inr [n]"
  proof
    assume "parse_entry e = Inr [n]"
    with a have "spec_first_failure (pre @ (n, chk) # post) e = Inr [n]"
      by (simp add: parse_entry_battery)
    moreover from a have "n \<notin> fst ` set pre"
      using split_distinct [OF spec_checks_distinct] by blast
    ultimately have "list_all (\<lambda>(m, c). c e = Inr True) pre"
      by (rule first_failure_not_later)
    with a show False
      by (auto simp: list_all_iff list_ex_iff)
  qed
next
  fix keys
  assume "parse_entry e = Inr keys"
  then show "length keys \<le> 1"
    unfolding parse_entry_battery by (rule first_failure_at_most_one)
qed

lemma bad_inn_checks:
  "check_email (email bad_inn_entry) = Inr True"
  "check_inn (inn bad_inn_entry) = Inr False"
  "check_passport (passport_series bad_inn_entry) = Inr True"
  "check_weight (weight bad_inn_entry) = Inr False"
  by (simp_all add: bad_inn_entry_def sample_entry_def check_defs pattern_defs match_defs
      class_defs int_defs)

lemma parse_entry_bad_inn: "parse_entry bad_inn_entry = Inr [lit ''inn'']"
  by (simp add: parse_entry_def and_then_def bad_inn_checks)

theorem parse_entry_first_failure_witness:
  "parse_entry bad_inn_entry = Inr [lit ''inn'']
   \<and> check_weight (weight bad_inn_entry) = Inr False
   \<and> parse_entry bad_inn_entry \<noteq> Inr [lit ''weight'']
   \<and> (\<exists>pre chk post. spec_checks = pre @ (lit ''inn'', chk) # post
         \<and> chk bad_inn_entry = Inr False
         \<and> list_all (\<lambda>(m, c). c bad_inn_entry = Inr True) pre)
   \<and> length [lit ''inn''] \<le> 1"
proof -
  note t = parse_entry_first_failure [of bad_inn_entry]
  have p: "parse_entry bad_inn_entry = Inr [lit ''inn'']"
    by (rule parse_entry_bad_inn)
  from t p have blamed: "\<exists>pre chk post. spec_checks = pre @ (lit ''inn'', chk) # post
         \<and> chk bad_inn_entry = Inr False
         \<and> list_all (\<lambda>(m, c). c bad_inn_entry = Inr True) pre"
    by blast
  have split: "spec_checks = take 3 spec_checks
      @ (lit ''weight'', \<lambda>e. check_weight (weight e)) # drop 4 spec_checks"
    by (simp add: spec_checks_def)
  have earlier: "list_ex (\<lambda>(m, c). c bad_inn_entry = Inr False) (take 3 spec_checks)"
    by (simp add: spec_checks_def bad_inn_checks)
  from t split earlier have later: "parse_entry bad_inn_entry \<noteq> Inr [lit ''weight'']"
    by blast
  from t p have "length [lit ''inn''] \<le> 1" by blast
  with p bad_inn_checks(4) later blamed show ?thesis by blast
qed


section \<open>The batch\<close>

lemma parse_entry_at_most_one: "parse_entry e = Inr keys \<Longrightarrow> length keys \<le> 1"
  unfolding parse_entry_battery by (rule first_failure_at_most_one)

lemma parse_loop_result:
  "parse_loop es ill leg = Inr (ill', leg') \<Longrightarrow>
     map Inr ill' = map Inr ill @ map parse_entry (filter (\<lambda>e. parse_entry e \<noteq> Inr []) es)
     \<and> leg' = leg @ filter (\<lambda>e. parse_entry e = Inr []) es
     \<and> (list_all (\<lambda>k. length k = 1) ill \<longrightarrow> list_all (\<lambda>k. length k = 1) ill')"
proof (induction es arbitrary: ill leg)
  case Nil
  then show ?case by simp
next
  case (Cons i rest)
  from Cons.prems obtain illkeys where keys: "parse_entry i = Inr illkeys"
    by (cases "parse_entry i") auto
  show ?case
  proof (cases "illkeys = []")
    case True
    with keys Cons.prems have "parse_loop rest ill (leg @ [i]) = Inr (ill', leg')" by simp
    from Cons.IH [OF this] keys True show ?thesis by simp
  next
    case False
    with keys Cons.prems have "parse_loop rest (ill @ [illkeys]) leg = Inr (ill', leg')"
      by simp
    note ih = Cons.IH [OF this]
    from keys have "length illkeys \<le> 1" by (rule parse_entry_at_most_one)
    with False have one: "length illkeys = 1" by (cases illkeys) auto
    from ih keys False one show ?thesis by simp
  qed
qed

lemma re_match_text: "is_text v \<Longrightarrow> \<exists>b. re_match r v = Inr b"
  by (cases v) (simp_all add: is_text_def re_match_def)

lemma numeric_check_text:
  assumes "is_text v"
  shows "\<exists>b. check_weight v = Inr b" and "\<exists>b. check_age v = Inr b"
proof -
  from assms obtain s where v: "v = PStr s" by (cases v) (simp_all add: is_text_def)
  have "py_int (PStr s) = Inl ValueError \<or> (\<exists>n. py_int (PStr s) = Inr n)"
    by (simp add: py_int_def split: option.splits)
  then show "\<exists>b. check_weight v = Inr b" and "\<exists>b. check_age v = Inr b"
    unfolding v by (auto simp: check_weight_def check_age_def)
qed

lemma spec_first_failure_returns:
  "list_all (\<lambda>(m, c). \<exists>b. c e = Inr b) cs \<Longrightarrow> \<exists>keys. spec_first_failure cs e = Inr keys"
  by (induction cs e rule: spec_first_failure.induct) auto

lemma parse_entry_text: 
  assumes "text_fields e"
  shows "\<exists>keys. parse_entry e = Inr keys"
proof -
  have "list_all (\<lambda>(m, c). \<exists>b. c e = Inr b) spec_checks"
    using assms
    by (simp add: spec_checks_def text_fields_def check_defs re_match_text numeric_check_text)
  then show ?thesis
    unfolding parse_entry_battery by (rule spec_first_failure_returns)
qed

lemma parse_loop_text:
  "list_all text_fields es \<Longrightarrow> \<exists>r. parse_loop es ill leg = Inr r"
proof (induction es arbitrary: ill leg)
  case Nil
  then show ?case by simp
next
  case (Cons i rest)
  from Cons.prems have "text_fields i" and rest: "list_all text_fields rest" by simp_all
  from parse_entry_text [OF this(1)] obtain keys where "parse_entry i = Inr keys" ..
  with Cons.IH [OF rest] show ?case by simp
qed

text \<open>
  C2. When every held record has text in all nine fields, \<open>parse\<close> returns its two
  lists. Whenever it returns them, the valid records are the held records that
  \<open>parse_entry\<close> leaves without a blamed field, in their order; the invalid list holds
  the results of \<open>parse_entry\<close> for the other records, in their order, each of them
  a single field name; so the two lengths add up to the number of held records.
\<close>

theorem parse_partitions_input:
  "(list_all text_fields (entries v) \<longrightarrow> (\<exists>ill leg. fst (parse v) = Inr (ill, leg)))
   \<and> (\<forall>ill leg. fst (parse v) = Inr (ill, leg) \<longrightarrow>
         length ill + length leg = length (entries v)
       \<and> leg = filter (\<lambda>e. parse_entry e = Inr []) (entries v)
       \<and> map Inr ill = map parse_entry (filter (\<lambda>e. parse_entry e \<noteq> Inr []) (entries v))
       \<and> list_all (\<lambda>k. length k = 1) ill)"
proof (intro conjI allI impI)
  assume "list_all text_fields (entries v)"
  then have "\<exists>r. parse_loop (entries v) [] [] = Inr r" by (rule parse_loop_text)
  then show "\<exists>ill leg. fst (parse v) = Inr (ill, leg)" by (simp add: parse_def)
next
  fix ill leg
  assume "fst (parse v) = Inr (ill, leg)"
  then have "parse_loop (entries v) [] [] = Inr (ill, leg)" by (simp add: parse_def)
  from parse_loop_result [OF this]
  have ill: "map Inr ill = map parse_entry (filter (\<lambda>e. parse_entry e \<noteq> Inr []) (entries v))"
    and leg: "leg = filter (\<lambda>e. parse_entry e = Inr []) (entries v)"
    and one: "list_all (\<lambda>k. length k = 1) ill"
    by simp_all
  from ill have "length ill = length (filter (\<lambda>e. parse_entry e \<noteq> Inr []) (entries v))"
    by (metis length_map)
  with leg show "length ill + length leg = length (entries v)"
    using sum_length_filter_compl [of "\<lambda>e. parse_entry e = Inr []" "entries v"] by simp
  show "leg = filter (\<lambda>e. parse_entry e = Inr []) (entries v)" by (rule leg)
  show "map Inr ill = map parse_entry (filter (\<lambda>e. parse_entry e \<noteq> Inr []) (entries v))"
    by (rule ill)
  show "list_all (\<lambda>k. length k = 1) ill" by (rule one)
qed

lemma parse_sample:
  "fst (parse sample_validator) = Inr ([[lit ''inn'']], [sample_entry, sample_entry])"
  by (simp add: parse_def sample_validator_def parse_entry_sample parse_entry_bad_inn)

lemma text_fields_sample: "list_all text_fields (entries sample_validator)"
  by (simp add: sample_validator_def text_fields_def is_text_def bad_inn_entry_def
      sample_entry_def)

theorem parse_partitions_input_witness:
  "list_all text_fields (entries sample_validator)
   \<and> fst (parse sample_validator) = Inr ([[lit ''inn'']], [sample_entry, sample_entry])
   \<and> length [[lit ''inn'']] + length [sample_entry, sample_entry]
       = length (entries sample_validator)
   \<and> [sample_entry, sample_entry]
       = filter (\<lambda>e. parse_entry e = Inr []) (entries sample_validator)
   \<and> map Inr [[lit ''inn'']]
       = map parse_entry (filter (\<lambda>e. parse_entry e \<noteq> Inr []) (entries sample_validator))
   \<and> list_all (\<lambda>k. length k = 1) [[lit ''inn'']]"
  using parse_partitions_input [of sample_validator] text_fields_sample parse_sample
  by blast

text \<open>
  C9. \<open>parse\<close> leaves the validator, and with it every held record, as it was; a
  second run on the validator it leaves gives the same result as the first, be it a pair
  of lists or an exception; and every record in the valid list is one of the held
  records, unchanged.
\<close>

theorem parse_is_pure:
  "snd (parse v) = v
   \<and> fst (parse (snd (parse v))) = fst (parse v)
   \<and> (\<forall>ill leg. fst (parse v) = Inr (ill, leg) \<longrightarrow> set leg \<subseteq> set (entries v))"
proof (intro conjI allI impI)
  show "snd (parse v) = v" by (simp add: parse_def)
  show "fst (parse (snd (parse v))) = fst (parse v)" by (simp add: parse_def)
next
  fix ill leg
  assume "fst (parse v) = Inr (ill, leg)"
  then have "parse_loop (entries v) [] [] = Inr (ill, leg)" by (simp add: parse_def)
  from parse_loop_result [OF this]
  have "leg = filter (\<lambda>e. parse_entry e = Inr []) (entries v)" by simp
  then show "set leg \<subseteq> set (entries v)" by auto
qed

theorem parse_is_pure_witness:
  "fst (parse sample_validator) = Inr ([[lit ''inn'']], [sample_entry, sample_entry])
   \<and> snd (parse sample_validator) = sample_validator
   \<and> fst (parse (snd (parse sample_validator)))
       = Inr ([[lit ''inn'']], [sample_entry, sample_entry])
   \<and> set [sample_entry, sample_entry] \<subseteq> set (entries sample_validator)"
proof -
  note t = parse_is_pure [of sample_validator]
  from t parse_sample
  have "set [sample_entry, sample_entry] \<subseteq> set (entries sample_validator)" by blast
  moreover from t have "snd (parse sample_validator) = sample_validator" by blast
  moreover from t parse_sample
  have "fst (parse (snd (parse sample_validator)))
      = Inr ([[lit ''inn'']], [sample_entry, sample_entry])"
    by simp
  ultimately show ?thesis using parse_sample by blast
qed

section \<open>The report\<close>

lemma incr_distinct:
  "distinct (map fst d) \<Longrightarrow> j \<in> fst ` set d \<Longrightarrow>
     incr j d = Inr (map (\<lambda>(k, n). (k, if k = j then n + 1 else n)) d)"
proof (induction d)
  case Nil
  then show ?case by simp
next
  case (Cons a d)
  obtain k n where a: "a = (k, n)" by (cases a)
  show ?case
  proof (cases "k = j")
    case True
    with Cons.prems(1) a have "\<forall>(k', n') \<in> set d. k' \<noteq> j" by force
    then have "map (\<lambda>(k, n). (k, if k = j then n + 1 else n)) d = d"
      by (induction d) auto
    with True a show ?thesis by simp
  next
    case False
    with Cons.prems a have "distinct (map fst d)" and "j \<in> fst ` set d" by auto
    from Cons.IH [OF this] False a show ?thesis by simp
  qed
qed

lemma blamed_on_Cons:
  "blamed_on k (x # xs) = (if x = [k] then 1 else 0) + blamed_on k xs"
  by (simp add: blamed_on_def)

lemma count_errors_tally:
  "distinct (map fst d) \<Longrightarrow> list_all (\<lambda>keys. \<exists>k \<in> fst ` set d. keys = [k]) result \<Longrightarrow>
     count_errors result (n, d)
       = Inr (n + int (length result), map (\<lambda>(k, c). (k, c + blamed_on k result)) d)"
proof (induction result arbitrary: n d)
  case Nil
  then show ?case by (simp add: blamed_on_def)
next
  case (Cons x rest)
  from Cons.prems(2) obtain j where x: "x = [j]" and j: "j \<in> fst ` set d" by auto
  let ?d = "map (\<lambda>(k, c). (k, if k = j then c + 1 else c)) d"
  have step: "count_keys x (n, d) = Inr (n + 1, ?d)"
    using incr_distinct [OF Cons.prems(1) j] by (simp add: x)
  have keys: "map fst ?d = map fst d" by (induction d) auto
  then have fst_set: "fst ` set ?d = fst ` set d" by (metis set_map)
  have d1: "distinct (map fst ?d)"
    unfolding keys by (rule Cons.prems(1))
  from Cons.prems(2)
  have "list_all (\<lambda>keys. \<exists>k \<in> fst ` set d. keys = [k]) rest" by simp
  then have d2: "list_all (\<lambda>keys. \<exists>k \<in> fst ` set ?d. keys = [k]) rest"
    unfolding fst_set .
  have "map (\<lambda>(k, c). (k, c + blamed_on k rest)) ?d
      = map (\<lambda>(k, c). (k, c + blamed_on k (x # rest))) d"
    by (induction d) (auto simp: blamed_on_Cons x)
  with Cons.IH [OF d1 d2, of "n + 1"] step show ?case by simp
qed

lemma tally_sum_step:
  "distinct ks \<Longrightarrow>
     sum_list (map (\<lambda>k. blamed_on k (x # xs)) ks)
       = (if \<exists>k \<in> set ks. x = [k] then 1 else 0) + sum_list (map (\<lambda>k. blamed_on k xs) ks)"
  by (induction ks) (auto simp: blamed_on_Cons)

lemma tally_sum:
  "distinct ks \<Longrightarrow> list_all (\<lambda>keys. \<exists>k \<in> set ks. keys = [k]) result \<Longrightarrow>
     sum_list (map (\<lambda>k. blamed_on k result) ks) = int (length result)"
proof (induction result)
  case Nil
  then show ?case by (induction ks) (simp_all add: blamed_on_def)
next
  case (Cons x rest)
  then show ?case by (simp add: tally_sum_step)
qed

lemma report_order_distinct: "distinct spec_report_order"
  by (simp add: spec_report_order_def lit_def)

lemma errors_count_init_order: "errors_count_init = map (\<lambda>k. (k, 0)) spec_report_order"
  by (simp add: errors_count_init_def spec_report_order_def)

lemma spec_checks_names: "fst ` set spec_checks = set spec_report_order"
  by (auto simp: spec_checks_def spec_report_order_def)

lemma parse_entry_names:
  assumes "parse_entry e = Inr keys" and "keys \<noteq> []"
  shows "\<exists>k \<in> set spec_report_order. keys = [k]"
proof -
  from assms(1) have "length keys \<le> 1" by (rule parse_entry_at_most_one)
  with assms(2) obtain n where n: "keys = [n]" by (cases keys) auto
  with assms(1) have "spec_first_failure spec_checks e = Inr [n]"
    by (simp add: parse_entry_battery)
  from first_failure_blamed [OF this] obtain pre chk post
    where split: "spec_checks = pre @ (n, chk) # post" by blast
  have "(n, chk) \<in> set (pre @ (n, chk) # post)" by simp
  then have "(n, chk) \<in> set spec_checks" unfolding split [symmetric] .
  then have "fst (n, chk) \<in> fst ` set spec_checks" by (rule imageI)
  then have "n \<in> fst ` set spec_checks" by simp
  with n show ?thesis by (simp add: spec_checks_names)
qed

lemma parse_loop_names:
  "parse_loop es ill leg = Inr (ill', leg') \<Longrightarrow>
     list_all (\<lambda>keys. \<exists>k \<in> set spec_report_order. keys = [k]) ill \<Longrightarrow>
     list_all (\<lambda>keys. \<exists>k \<in> set spec_report_order. keys = [k]) ill'"
proof (induction es arbitrary: ill leg)
  case Nil
  then show ?case by simp
next
  case (Cons i rest)
  from Cons.prems(1) obtain illkeys where keys: "parse_entry i = Inr illkeys"
    by (cases "parse_entry i") auto
  show ?case
  proof (cases "illkeys = []")
    case True
    with keys Cons.prems(1) have "parse_loop rest ill (leg @ [i]) = Inr (ill', leg')" by simp
    from Cons.IH [OF this Cons.prems(2)] show ?thesis .
  next
    case False
    with keys Cons.prems(1) have run: "parse_loop rest (ill @ [illkeys]) leg = Inr (ill', leg')"
      by simp
    from parse_entry_names [OF keys False] Cons.prems(2)
    have "list_all (\<lambda>keys. \<exists>k \<in> set spec_report_order. keys = [k]) (ill @ [illkeys])"
      by simp
    from Cons.IH [OF run this] show ?thesis .
  qed
qed

text \<open>
  C7. For the invalid list of a run of \<open>parse\<close>: the nine counters start at zero, in the
  order email, weight, inn, passport_series, occupation, age, academic_degree, worldview,
  address; after the count each counter is the number of entries blamed on its field;
  the grand total, and the sum of the nine counters, is the number of invalid entries;
  and the report, printed or written to the named file, shows the total and then the
  nine counters in that order.
\<close>

theorem show_summary_counts:
  assumes "fst (parse v) = Inr (ill, leg)"
  shows "count_errors [] (0, errors_count_init) = Inr (0, map (\<lambda>k. (k, 0)) spec_report_order)
   \<and> count_errors ill (0, errors_count_init) = Inr (int (length ill), spec_tally ill)
   \<and> sum_list (map snd (spec_tally ill)) = int (length ill)
   \<and> show_summary ill [] =
       Inr (Printed ([10] @ total_line @ str_int (int (length ill)) @ [10, 10]
              @ by_type_line @ [10] @ item_lines (spec_tally ill)))
   \<and> (fname \<noteq> [] \<longrightarrow> show_summary ill fname =
        Inr (Written fname (total_line @ str_int (int (length ill)) @ [10]
              @ item_lines (spec_tally ill))))"
proof -
  from assms have "parse_loop (entries v) [] [] = Inr (ill, leg)" by (simp add: parse_def)
  from parse_loop_names [OF this]
  have names: "list_all (\<lambda>keys. \<exists>k \<in> set spec_report_order. keys = [k]) ill" by simp
  have keys: "map fst errors_count_init = spec_report_order"
    by (simp add: errors_count_init_order comp_def)
  then have fst_set: "fst ` set errors_count_init = set spec_report_order"
    by (metis set_map)
  have "count_errors ill (0, errors_count_init)
      = Inr (0 + int (length ill), map (\<lambda>(k, c). (k, c + blamed_on k ill)) errors_count_init)"
    by (rule count_errors_tally) (simp_all add: keys fst_set report_order_distinct names)
  moreover have "map (\<lambda>(k, c). (k, c + blamed_on k ill)) errors_count_init = spec_tally ill"
    by (simp add: errors_count_init_order spec_tally_def comp_def)
  ultimately have count: "count_errors ill (0, errors_count_init)
      = Inr (int (length ill), spec_tally ill)"
    by simp
  have zero: "count_errors [] (0, errors_count_init) = Inr (0, map (\<lambda>k. (k, 0)) spec_report_order)"
    by (simp add: errors_count_init_order)
  have total: "sum_list (map snd (spec_tally ill)) = int (length ill)"
    using tally_sum [OF report_order_distinct names] by (simp add: spec_tally_def comp_def)
  from count zero total show ?thesis by (simp add: show_summary_def)
qed

lemma spec_tally_sample:
  "spec_tally [[lit ''inn'']] =
     [(lit ''email'', 0), (lit ''weight'', 0), (lit ''inn'', 1), (lit ''passport_series'', 0),
      (lit ''occupation'', 0), (lit ''age'', 0), (lit ''academic_degree'', 0),
      (lit ''worldview'', 0), (lit ''address'', 0)]"
  by (simp add: spec_tally_def spec_report_order_def blamed_on_def lit_def)

theorem show_summary_counts_witness:
  "fst (parse sample_validator) = Inr ([[lit ''inn'']], [sample_entry, sample_entry])
   \<and> count_errors [[lit ''inn'']] (0, errors_count_init) =
       Inr (1, [(lit ''email'', 0), (lit ''weight'', 0), (lit ''inn'', 1),
                (lit ''passport_series'', 0), (lit ''occupation'', 0), (lit ''age'', 0),
                (lit ''academic_degree'', 0), (lit ''worldview'', 0), (lit ''address'', 0)])
   \<and> lit ''21_result.txt'' \<noteq> []
   \<and> show_summary [[lit ''inn'']] (lit ''21_result.txt'') =
       Inr (Written (lit ''21_result.txt'')
         (total_line @ lit ''1'' @ [10] @
          lit ''email: 0'' @ [10] @
          lit ''weight: 0'' @ [10] @
          lit ''inn: 1'' @ [10] @
          lit ''passport_series: 0'' @ [10] @
          lit ''occupation: 0'' @ [10] @
          lit ''age: 0'' @ [10] @
          lit ''academic_degree: 0'' @ [10] @
          lit ''worldview: 0'' @ [10] @
          lit ''address: 0'' @ [10]))"
proof -
  have name: "lit ''21_result.txt'' \<noteq> []" by (simp add: lit_def)
  note t = show_summary_counts [OF parse_sample, of "lit ''21_result.txt''"]
  from t have "count_errors [[lit ''inn'']] (0, errors_count_init)
      = Inr (int (length [[lit ''inn'']]), spec_tally [[lit ''inn'']])"
    by blast
  then have count: "count_errors [[lit ''inn'']] (0, errors_count_init) =
       Inr (1, [(lit ''email'', 0), (lit ''weight'', 0), (lit ''inn'', 1),
                (lit ''passport_series'', 0), (lit ''occupation'', 0), (lit ''age'', 0),
                (lit ''academic_degree'', 0), (lit ''worldview'', 0), (lit ''address'', 0)])"
    by (simp add: spec_tally_sample)
  from t name have written: "show_summary [[lit ''inn'']] (lit ''21_result.txt'') =
        Inr (Written (lit ''21_result.txt'')
          (total_line @ str_int (int (length [[lit ''inn'']])) @ [10]
              @ item_lines (spec_tally [[lit ''inn'']])))"
    by blast
  have total: "str_int (int (length [[lit ''inn'']])) = lit ''1''"
    by (simp add: str_int_def digits10.simps lit_def)
  have lines: "item_lines (spec_tally [[lit ''inn'']]) =
          lit ''email: 0'' @ [10] @
          lit ''weight: 0'' @ [10] @
          lit ''inn: 1'' @ [10] @
          lit ''passport_series: 0'' @ [10] @
          lit ''occupation: 0'' @ [10] @
          lit ''age: 0'' @ [10] @
          lit ''academic_degree: 0'' @ [10] @
          lit ''worldview: 0'' @ [10] @
          lit ''address: 0'' @ [10]"
    unfolding spec_tally_sample
    by (simp add: item_lines_def str_int_def digits10.simps lit_def)
  from written have report: "show_summary [[lit ''inn'']] (lit ''21_result.txt'') =
       Inr (Written (lit ''21_result.txt'')
         (total_line @ lit ''1'' @ [10] @
          lit ''email: 0'' @ [10] @
          lit ''weight: 0'' @ [10] @
          lit ''inn: 1'' @ [10] @
          lit ''passport_series: 0'' @ [10] @
          lit ''occupation: 0'' @ [10] @
          lit ''age: 0'' @ [10] @
          lit ''academic_degree: 0'' @ [10] @
          lit ''worldview: 0'' @ [10] @
          lit ''address: 0'' @ [10]))"
    unfolding total lines .
  from parse_sample count name report show ?thesis by blast
qed

section \<open>Serialisation\<close>

lemma save_in_json_numeric:
  \<open>save_in_json [numeric_entry] (lit ''valid_data.txt'') =
     ((lit ''valid_data.txt'',
       lit ''['' @ [10] @
       lit ''    {'' @ [10] @
       lit ''      "email": "a@b.co",'' @ [10] @
       lit ''      "weight": 70,'' @ [10] @
       lit ''      "inn": "123456789012",'' @ [10] @
       lit ''      "passport_series": "12 34",'' @ [10] @
       lit ''      "occupation": "engineer",'' @ [10] @
       lit ''      "age": 30,'' @ [10] @
       lit ''      "academic_degree": "master",'' @ [10] @
       lit ''      "worldview": "atheism",'' @ [10] @
       lit ''      "address": "Lenina 5",'' @ [10] @
       lit ''    },'' @ [10] @
       lit '']''), None)\<close>
  by (simp add: save_in_json_def entry_text_def and_then_def fmt_d_def fmt_s_def
      numeric_entry_def sample_entry_def str_int_def digits10.simps lit_def)

lemma save_in_json_text_weight:
  assumes "weight i = PStr s"
  shows "save_in_json (i # rest) filename = ((filename, lit ''[''), Some TypeError)"
  using assms by (simp add: save_in_json_def entry_text_def and_then_def fmt_d_def)

text \<open>
  C8. \<open>save_in_json\<close> is to write one object of nine fields for every valid record
  whose fields are stored as text. For one such record the source writes the opening
  bracket and then raises \<open>TypeError\<close>, because the weight is formatted with \<open>%d\<close>.
\<close>

theorem save_in_json_raises_on_text_weight:
  "text_fields sample_entry
   \<and> parse_entry sample_entry = Inr []
   \<and> save_in_json [sample_entry] (lit ''valid_data.txt'')
       = ((lit ''valid_data.txt'', lit ''[''), Some TypeError)"
proof -
  have "text_fields sample_entry"
    by (simp add: text_fields_def is_text_def sample_entry_def)
  moreover have "weight sample_entry = PStr (lit ''70'')"
    by (simp add: sample_entry_def)
  then have "save_in_json [sample_entry] (lit ''valid_data.txt'')
       = ((lit ''valid_data.txt'', lit ''[''), Some TypeError)"
    by (rule save_in_json_text_weight)
  ultimately show ?thesis using parse_entry_sample by blast
qed

section \<open>What the patterns accept\<close>

lemma matches_Nul [simp]: "\<not> matches Nul s"
  by (induction s) simp_all

lemma matches_Eps [simp]: "matches Eps s = (s = [])"
  by (cases s) simp_all

lemma matches_Alt [simp]: "matches (Alt r1 r2) s = (matches r1 s \<or> matches r2 s)"
  by (induction s arbitrary: r1 r2) simp_all

lemma matches_Cls [simp]: "matches (Cls p) s = (\<exists>c. s = [c] \<and> p c)"
  by (cases s) auto

lemma matches_Seq: "matches (Seq r1 r2) s = (\<exists>u v. s = u @ v \<and> matches r1 u \<and> matches r2 v)"
proof (induction s arbitrary: r1 r2)
  case Nil
  then show ?case by simp
next
  case (Cons c cs)
  have split: "(\<exists>u v. c # cs = u @ v \<and> matches r1 u \<and> matches r2 v) =
      ((nullable r1 \<and> matches (deriv c r2) cs)
       \<or> (\<exists>u v. cs = u @ v \<and> matches (deriv c r1) u \<and> matches r2 v))"
    (is "?L = ?R")
  proof
    assume ?L
    then obtain u v where uv: "c # cs = u @ v" "matches r1 u" "matches r2 v" by blast
    show ?R
    proof (cases u)
      case Nil
      with uv show ?thesis by auto
    next
      case (Cons a u')
      with uv have "cs = u' @ v" "matches (deriv c r1) u'" by auto
      with uv(3) show ?thesis by blast
    qed
  next
    assume ?R
    then show ?L
    proof
      assume "nullable r1 \<and> matches (deriv c r2) cs"
      then have "c # cs = [] @ (c # cs) \<and> matches r1 [] \<and> matches r2 (c # cs)" by simp
      then show ?L by blast
    next
      assume "\<exists>u v. cs = u @ v \<and> matches (deriv c r1) u \<and> matches r2 v"
      then obtain u v where "cs = u @ v" "matches (deriv c r1) u" "matches r2 v" by blast
      then have "c # cs = (c # u) @ v \<and> matches r1 (c # u) \<and> matches r2 v" by simp
      then show ?L by blast
    qed
  qed
  show ?case
    unfolding split using Cons.IH by auto
qed

lemma matches_Star_Cls: "matches (Star (Cls p)) s = list_all p s"
  by (induction s) (auto simp: matches_Seq)

lemma matches_Plus_Cls: "matches (Plus (Cls p)) s = (s \<noteq> [] \<and> list_all p s)"
  by (cases s) (auto simp: Plus_def matches_Seq matches_Star_Cls)

lemma matches_address:
  "matches address_pattern s =
     (\<exists>t d. s = t @ 32 # d \<and> list_all address_char t \<and> d \<noteq> [] \<and> list_all re_d d)"
  unfolding address_pattern_def matches_Seq matches_Star_Cls matches_Plus_Cls matches_Cls
  by auto

lemma matches_Rep_Cls: "matches (Rep n (Cls p)) s = (length s = n \<and> list_all p s)"
proof (induction n arbitrary: s)
  case 0
  show ?case by auto
next
  case (Suc n)
  then show ?case by (cases s) (auto simp: matches_Seq)
qed

text \<open>All that \<open>check_inn\<close> accepts: twelve digits, with or without a final line feed.\<close>

lemma check_inn_accepts:
  "check_inn (PStr s) =
     Inr ((length s = 12 \<and> list_all re_d s)
          \<or> (length s = 13 \<and> last s = 10 \<and> list_all re_d (butlast s)))"
  by (auto simp: check_inn_def re_match_def re_match_anchored_def inn_pattern_def
      matches_Rep_Cls)

lemma not_digit_10: "\<not> re_d 10"
  by (simp add: class_defs)

lemma not_digit_32: "\<not> re_d 32"
  by (simp add: class_defs)

text \<open>
  All that \<open>check_address\<close> accepts: a text portion drawn from the bracket expression
  of the source, one space and a run of decimal digits, with or without a final line
  feed.
\<close>

lemma check_address_accepts:
  "check_address (PStr s) =
     Inr ((\<exists>t d. s = t @ 32 # d \<and> list_all address_char t \<and> d \<noteq> [] \<and> list_all re_d d)
          \<or> (s \<noteq> [] \<and> last s = 10
              \<and> (\<exists>t d. butlast s = t @ 32 # d \<and> list_all address_char t \<and> d \<noteq> []
                    \<and> list_all re_d d)))"
  by (simp add: check_address_def re_match_def re_match_anchored_def matches_address)

text \<open>The executable form of the address rule of the specification is the rule.\<close>

lemma spec_address_iff:
  "spec_address s =
     (\<exists>t d. s = t @ 32 # d \<and> list_all spec_address_char t \<and> d \<noteq> [] \<and> list_all re_d d)"
proof
  assume a: "spec_address s"
  let ?number = "rev (takeWhile re_d (rev s))"
  let ?front = "rev (dropWhile re_d (rev s))"
  from a have n: "?number \<noteq> []" and f: "?front \<noteq> []" and l: "last ?front = 32"
    and c: "list_all spec_address_char (butlast ?front)"
    by (simp_all add: spec_address_def Let_def)
  have s: "s = ?front @ ?number"
    by (metis rev_append rev_rev_ident takeWhile_dropWhile_id)
  from f l have "?front = butlast ?front @ [32]"
    by (metis append_butlast_last_id)
  with s have "s = butlast ?front @ 32 # ?number" by (metis append_Cons append_Nil append_assoc)
  moreover have "list_all re_d ?number"
    by (auto simp: list_all_iff dest: set_takeWhileD)
  ultimately show "\<exists>t d. s = t @ 32 # d \<and> list_all spec_address_char t \<and> d \<noteq> []
      \<and> list_all re_d d"
    using n c by blast
next
  assume "\<exists>t d. s = t @ 32 # d \<and> list_all spec_address_char t \<and> d \<noteq> [] \<and> list_all re_d d"
  then obtain t d where s: "s = t @ 32 # d" and t: "list_all spec_address_char t"
    and d: "d \<noteq> []" "list_all re_d d"
    by blast
  have r: "rev s = rev d @ 32 # rev t" by (simp add: s)
  from d(2) have all: "\<And>x. x \<in> set (rev d) \<Longrightarrow> re_d x" by (simp add: list_all_iff)
  have "takeWhile re_d (rev d @ 32 # rev t) = rev d @ takeWhile re_d (32 # rev t)"
    using all by (rule takeWhile_append2)
  then have tw: "takeWhile re_d (rev s) = rev d"
    unfolding r using not_digit_32 by simp
  have "dropWhile re_d (rev d @ 32 # rev t) = dropWhile re_d (32 # rev t)"
    using all by (rule dropWhile_append2)
  then have dw: "dropWhile re_d (rev s) = 32 # rev t"
    unfolding r using not_digit_32 by simp
  show "spec_address s"
    using t d(1) by (simp add: spec_address_def Let_def tw dw)
qed

text \<open>
  C6. \<open>check_address\<close> is to hold exactly for a text portion of Latin letters, Cyrillic
  letters, digits, spaces, periods and hyphens, then one space, then a house number of
  one or more digits that ends the string. The source accepts an underscore in the text
  portion, and it accepts a line feed after the house number.
\<close>

theorem check_address_accepts_underscore:
  "check_address (PStr (lit ''_ 5'')) = Inr True
   \<and> \<not> spec_address (lit ''_ 5'')
   \<and> \<not> spec_address_char 95
   \<and> check_address (PStr (lit ''Lenina 5'' @ [10])) = Inr True
   \<and> \<not> spec_address (lit ''Lenina 5'' @ [10])"
  by (simp add: check_defs pattern_defs match_defs class_defs spec_address_def
      spec_address_char_def Let_def isalnum_ascii)

end
